theory Spec2Isabelle
  imports Main "HOL-Library.Extended_Nat" "HOL-Library.Multiset"
begin

unbundle bit_operations_syntax

chapter \<open>Hash anchoring of patient and organ records on a Hedera topic\<close>

text \<open>
  The development follows \<^verbatim>\<open>src/test.js\<close>, the server that stores records with
  Mongoose, anchors their SHA-256 fingerprints on a Hedera consensus topic and later
  replays the topic to verify them. One piece comes from another server file of the
  repository: the write handler of \<^verbatim>\<open>src/unnamed/part_002\<close>, which hashes the request
  body as it arrived, is kept beside the one of \<^verbatim>\<open>test.js\<close>.

  External collaborators are parameters or events: the Hedera submission is a function
  from the message to a transaction id or an error, the Mongoose models are functions
  that give the stored document or an error, and a topic subscription is the list of
  callbacks the SDK and the timer invoke, in the order they run on the event loop.
\<close>

section \<open>JavaScript values\<close>

text \<open>
  A JSON value as \<^verbatim>\<open>express.json()\<close> hands it to a handler, with \<open>JUndefined\<close> for
  a property that is read but absent. An object is the list of its own properties in
  enumeration order, keys distinct. Strings are byte strings holding well-formed UTF-8,
  numbers are the integers a JavaScript number holds exactly.
\<close>

datatype json = JUndefined | JNull | JBool bool | JNum int | JStr string
  | JArr "json list" | JObj "(string \<times> json) list"

datatype js_error = TypeError | Error string

text \<open>Reading \<^verbatim>\<open>obj.key\<close> on an object: the value, or \<^verbatim>\<open>undefined\<close>.\<close>

definition read_prop :: "(string \<times> json) list \<Rightarrow> string \<Rightarrow> json" where
  "read_prop obj k = (case map_of obj k of None \<Rightarrow> JUndefined | Some v \<Rightarrow> v)"

text \<open>The same read on any value (\<^verbatim>\<open>a.sequenceNumber\<close> in the sort comparator).\<close>

fun field :: "json \<Rightarrow> string \<Rightarrow> json" where
  "field (JObj kvs) k = read_prop kvs k"
| "field v k = JUndefined"

subsection \<open>\<^verbatim>\<open>JSON.stringify\<close>\<close>

definition digit_char :: "nat \<Rightarrow> char" where
  "digit_char d = ''0123456789abcdef'' ! d"

text \<open>\<^verbatim>\<open>Number.prototype.toString\<close> and \<^verbatim>\<open>Long.prototype.toString\<close> on a natural number.\<close>

function dec_nat :: "nat \<Rightarrow> string" where
  "dec_nat n = (if n < 10 then [digit_char n] else dec_nat (n div 10) @ [digit_char (n mod 10)])"
  by pat_completeness auto
termination
  by (relation "measure id") auto

definition number_text :: "int \<Rightarrow> string" where
  "number_text i = (if i < 0 then CHR ''-'' # dec_nat (nat (- i)) else dec_nat (nat i))"

text \<open>
  String quoting: the quotation mark, the backslash and the control characters are
  escaped, every other byte is copied.
\<close>

definition escape_char :: "char \<Rightarrow> string" where
  "escape_char c =
     (if c = CHR 0x22 then [CHR 0x5C, CHR 0x22]
      else if c = CHR 0x5C then [CHR 0x5C, CHR 0x5C]
      else if c = CHR 0x08 then [CHR 0x5C, CHR ''b'']
      else if c = CHR 0x0C then [CHR 0x5C, CHR ''f'']
      else if c = CHR 0x0A then [CHR 0x5C, CHR ''n'']
      else if c = CHR 0x0D then [CHR 0x5C, CHR ''r'']
      else if c = CHR 0x09 then [CHR 0x5C, CHR ''t'']
      else if (of_char c :: nat) < 32
        then [CHR 0x5C, CHR ''u'', CHR ''0'', CHR ''0'',
              digit_char (of_char c div 16), digit_char (of_char c mod 16)]
      else [c])"

definition quote :: "string \<Rightarrow> string" where
  "quote s = CHR 0x22 # concat (map escape_char s) @ [CHR 0x22]"

fun commas :: "string list \<Rightarrow> string" where
  "commas [] = []"
| "commas [x] = x"
| "commas (x # y # ys) = x @ CHR '','' # commas (y # ys)"

text \<open>
  A member whose value is \<^verbatim>\<open>undefined\<close> is left out of an object; inside an array
  \<^verbatim>\<open>undefined\<close> is written \<^verbatim>\<open>null\<close>. Members are written in enumeration order.
\<close>

fun serialize :: "json \<Rightarrow> string" where
  "serialize JUndefined = ''null''"
| "serialize JNull = ''null''"
| "serialize (JBool b) = (if b then ''true'' else ''false'')"
| "serialize (JNum i) = number_text i"
| "serialize (JStr s) = quote s"
| "serialize (JArr xs) = CHR ''['' # commas (map serialize xs) @ '']''"
| "serialize (JObj kvs) =
     CHR ''{'' # commas (map (\<lambda>kv. quote (fst kv) @ CHR '':'' # serialize (snd kv))
                       (filter (\<lambda>kv. snd kv \<noteq> JUndefined) kvs)) @ ''}''"

text \<open>\<^verbatim>\<open>JSON.stringify(undefined)\<close> is \<^verbatim>\<open>undefined\<close>, here \<open>None\<close>.\<close>

definition JSON_stringify :: "json \<Rightarrow> string option" where
  "JSON_stringify v = (if v = JUndefined then None else Some (serialize v))"

section \<open>SHA-256\<close>

text \<open>
  \<^verbatim>\<open>crypto.createHash("sha256").update(s).digest("hex")\<close>, after FIPS 180-4. Words are
  natural numbers below \<open>2 ^ 32\<close> with the wrap-around of the addition written out,
  bytes are natural numbers below 256.
\<close>

definition add32 :: "nat \<Rightarrow> nat \<Rightarrow> nat" where
  "add32 a b = (a + b) mod 4294967296"

definition rotr :: "nat \<Rightarrow> nat \<Rightarrow> nat" where
  "rotr n x = x div 2 ^ n + (x mod 2 ^ n) * 2 ^ (32 - n)"

definition shr :: "nat \<Rightarrow> nat \<Rightarrow> nat" where
  "shr n x = x div 2 ^ n"

definition Ch :: "nat \<Rightarrow> nat \<Rightarrow> nat \<Rightarrow> nat" where
  "Ch x y z = (x AND y) XOR ((4294967295 - x) AND z)"

definition Maj :: "nat \<Rightarrow> nat \<Rightarrow> nat \<Rightarrow> nat" where
  "Maj x y z = (x AND y) XOR (x AND z) XOR (y AND z)"

definition bsig0 :: "nat \<Rightarrow> nat" where
  "bsig0 x = rotr 2 x XOR rotr 13 x XOR rotr 22 x"

definition bsig1 :: "nat \<Rightarrow> nat" where
  "bsig1 x = rotr 6 x XOR rotr 11 x XOR rotr 25 x"

definition ssig0 :: "nat \<Rightarrow> nat" where
  "ssig0 x = rotr 7 x XOR rotr 18 x XOR shr 3 x"

definition ssig1 :: "nat \<Rightarrow> nat" where
  "ssig1 x = rotr 17 x XOR rotr 19 x XOR shr 10 x"

definition K256 :: "nat list" where
  "K256 =
    [1116352408, 1899447441, 3049323471, 3921009573, 961987163, 1508970993,
     2453635748, 2870763221, 3624381080, 310598401, 607225278, 1426881987,
     1925078388, 2162078206, 2614888103, 3248222580, 3835390401, 4022224774,
     264347078, 604807628, 770255983, 1249150122, 1555081692, 1996064986,
     2554220882, 2821834349, 2952996808, 3210313671, 3336571891, 3584528711,
     113926993, 338241895, 666307205, 773529912, 1294757372, 1396182291,
     1695183700, 1986661051, 2177026350, 2456956037, 2730485921, 2820302411,
     3259730800, 3345764771, 3516065817, 3600352804, 4094571909, 275423344,
     430227734, 506948616, 659060556, 883997877, 958139571, 1322822218,
     1537002063, 1747873779, 1955562222, 2024104815, 2227730452, 2361852424,
     2428436474, 2756734187, 3204031479, 3329325298]"

definition H256 :: "nat list" where
  "H256 = [1779033703, 3144134277, 1013904242, 2773480762,
           1359893119, 2600822924, 528734635, 1541459225]"

text \<open>
  A round works on the eight working variables \<open>v\<close> and on the sixteen most recent words
  of the message schedule \<open>ws\<close>, oldest first; the schedule is extended as it is consumed.
\<close>

definition next_w :: "nat list \<Rightarrow> nat" where
  "next_w ws = add32 (add32 (ssig1 (ws ! 14)) (ws ! 9)) (add32 (ssig0 (ws ! 1)) (ws ! 0))"

definition mix :: "nat \<Rightarrow> nat \<Rightarrow> nat list \<Rightarrow> nat list" where
  "mix t1 t2 v = [add32 t1 t2, v ! 0, v ! 1, v ! 2, add32 (v ! 3) t1, v ! 4, v ! 5, v ! 6]"

fun round256 :: "nat \<Rightarrow> nat list \<times> nat list \<Rightarrow> nat list \<times> nat list" where
  "round256 k (v, ws) =
     (mix (add32 (add32 (add32 (v ! 7) (bsig1 (v ! 4))) (Ch (v ! 4) (v ! 5) (v ! 6)))
                 (add32 k (ws ! 0)))
          (add32 (bsig0 (v ! 0)) (Maj (v ! 0) (v ! 1) (v ! 2))) v,
      tl ws @ [next_w ws])"

fun rounds :: "nat list \<Rightarrow> nat list \<times> nat list \<Rightarrow> nat list" where
  "rounds [] s = fst s"
| "rounds (k # ks) s = rounds ks (round256 k s)"

definition compress :: "nat list \<Rightarrow> nat list \<Rightarrow> nat list" where
  "compress hs block = map2 add32 hs (rounds K256 (hs, block))"

fun blocks256 :: "nat list list \<Rightarrow> nat list \<Rightarrow> nat list" where
  "blocks256 [] hs = hs"
| "blocks256 (b # bs) hs = blocks256 bs (compress hs b)"

fun be32 :: "nat list \<Rightarrow> nat list" where
  "be32 (a # b # c # d # r) = (16777216 * a + 65536 * b + 256 * c + d) # be32 r"
| "be32 r = []"

fun chunks16 :: "nat \<Rightarrow> nat list \<Rightarrow> nat list list" where
  "chunks16 0 ws = []"
| "chunks16 (Suc n) ws = take 16 ws # chunks16 n (drop 16 ws)"

definition be64 :: "nat \<Rightarrow> nat list" where
  "be64 n = map (\<lambda>i. (n div 256 ^ i) mod 256) [7, 6, 5, 4, 3, 2, 1, 0]"

definition pad :: "nat list \<Rightarrow> nat list" where
  "pad m = m @ [128] @ replicate ((119 - length m mod 64) mod 64) 0 @ be64 (8 * length m)"

definition sha256 :: "nat list \<Rightarrow> nat list" where
  "sha256 m = blocks256 (chunks16 (length (pad m) div 64) (be32 (pad m))) H256"

definition hex32 :: "nat \<Rightarrow> string" where
  "hex32 w = map (\<lambda>d. digit_char ((w div d) mod 16))
                 [268435456, 16777216, 1048576, 65536, 4096, 256, 16, 1]"

definition sha256_hex :: "string \<Rightarrow> string" where
  "sha256_hex s = concat (map hex32 (sha256 (map of_char s)))"

section \<open>The canonicalizer: \<^verbatim>\<open>hashData\<close>\<close>

text \<open>
  \<^verbatim>\<open>hashData(data)\<close> digests \<^verbatim>\<open>JSON.stringify(data)\<close>; \<^verbatim>\<open>update(undefined)\<close> throws.
\<close>

definition hashData :: "json \<Rightarrow> js_error + string" where
  "hashData data = (case JSON_stringify data of
                      None \<Rightarrow> Inl TypeError
                    | Some s \<Rightarrow> Inr (sha256_hex s))"

text \<open>
  The object literals the handlers of \<^verbatim>\<open>test.js\<close> build before hashing:
  \<^verbatim>\<open>{name: p.name, bloodType: p.bloodType, age: p.age}\<close> and
  \<^verbatim>\<open>{type: o.type, bloodType: o.bloodType, donorId: o.donorId}\<close>.
\<close>

definition patient_fields :: "(string \<times> json) list \<Rightarrow> json" where
  "patient_fields p =
     JObj [(''name'', read_prop p ''name''), (''bloodType'', read_prop p ''bloodType''),
           (''age'', read_prop p ''age'')]"

definition organ_fields :: "(string \<times> json) list \<Rightarrow> json" where
  "organ_fields o' =
     JObj [(''type'', read_prop o' ''type''), (''bloodType'', read_prop o' ''bloodType''),
           (''donorId'', read_prop o' ''donorId'')]"

section \<open>The document store and the responses\<close>

text \<open>
  A stored Mongoose document: its \<^verbatim>\<open>_id\<close> and its schema fields. The handlers read
  \<^verbatim>\<open>p.name\<close>, \<^verbatim>\<open>o.donorId\<close> and so on from the fields.
\<close>

record document =
  doc_id :: string
  doc_fields :: "(string \<times> json) list"

definition document_json :: "document \<Rightarrow> json" where
  "document_json d = JObj ((''_id'', JStr (doc_id d)) # doc_fields d)"

record db =
  patients :: "document list"
  organs :: "document list"

record response =
  status :: nat
  body :: json

definition failure :: "nat \<Rightarrow> string \<Rightarrow> response" where
  "failure code msg = \<lparr>status = code, body = JObj [(''error'', JStr msg)]\<rparr>"

section \<open>The write path\<close>

text \<open>
  \<^verbatim>\<open>submitToHedera(message)\<close> executes one \<^verbatim>\<open>TopicMessageSubmitTransaction\<close> and
  returns the transaction id; \<open>execute\<close> is the network, which answers with the id or
  throws.
\<close>

definition submitToHedera :: "(string \<Rightarrow> js_error + string) \<Rightarrow> string \<Rightarrow> js_error + string" where
  "submitToHedera execute message = execute message"

text \<open>
  \<^verbatim>\<open>POST /patients\<close> and \<^verbatim>\<open>POST /organs\<close> of \<^verbatim>\<open>test.js\<close>. The whole body of a
  handler is one \<^verbatim>\<open>try\<close>: whatever throws ends in the 500 answer. \<open>create\<close> is
  \<^verbatim>\<open>Patient.create\<close> (\<^verbatim>\<open>Organ.create\<close>): the document as cast and saved, or an error.
\<close>

definition post_patients ::
  "(string \<Rightarrow> js_error + string) \<Rightarrow> ((string \<times> json) list \<Rightarrow> js_error + document)
   \<Rightarrow> db \<Rightarrow> (string \<times> json) list \<Rightarrow> response \<times> db" where
  "post_patients execute create store patient =
     (case hashData (patient_fields patient) of
        Inl err \<Rightarrow> (failure 500 ''Failed to log patient to Hedera'', store)
      | Inr hash \<Rightarrow>
          (case submitToHedera execute (''PATIENT|'' @ hash) of
             Inl err \<Rightarrow> (failure 500 ''Failed to log patient to Hedera'', store)
           | Inr txId \<Rightarrow>
               (case create patient of
                  Inl err \<Rightarrow> (failure 500 ''Failed to log patient to Hedera'', store)
                | Inr savedPatient \<Rightarrow>
                    (\<lparr>status = 201,
                      body = JObj [(''transactionId'', JStr txId), (''hash'', JStr hash),
                                   (''patient'', document_json savedPatient)]\<rparr>,
                     store\<lparr>patients := patients store @ [savedPatient]\<rparr>))))"

definition post_organs ::
  "(string \<Rightarrow> js_error + string) \<Rightarrow> ((string \<times> json) list \<Rightarrow> js_error + document)
   \<Rightarrow> db \<Rightarrow> (string \<times> json) list \<Rightarrow> response \<times> db" where
  "post_organs execute create store organ =
     (case hashData (organ_fields organ) of
        Inl err \<Rightarrow> (failure 500 ''Failed to log organ to Hedera'', store)
      | Inr hash \<Rightarrow>
          (case submitToHedera execute (''ORGAN|'' @ hash) of
             Inl err \<Rightarrow> (failure 500 ''Failed to log organ to Hedera'', store)
           | Inr txId \<Rightarrow>
               (case create organ of
                  Inl err \<Rightarrow> (failure 500 ''Failed to log organ to Hedera'', store)
                | Inr savedOrgan \<Rightarrow>
                    (\<lparr>status = 201,
                      body = JObj [(''transactionId'', JStr txId), (''hash'', JStr hash),
                                   (''organ'', document_json savedOrgan)]\<rparr>,
                     store\<lparr>organs := organs store @ [savedOrgan]\<rparr>))))"

text \<open>
  \<^verbatim>\<open>POST /patients\<close> of \<^verbatim>\<open>src/unnamed/part_002\<close>: no store, and the request body
  itself is hashed (\<^verbatim>\<open>hashData(patient)\<close>).
\<close>

definition post_patients_naive ::
  "(string \<Rightarrow> js_error + string) \<Rightarrow> (string \<times> json) list \<Rightarrow> response" where
  "post_patients_naive execute patient =
     (case hashData (JObj patient) of
        Inl err \<Rightarrow> failure 500 ''Failed to log patient to Hedera''
      | Inr hash \<Rightarrow>
          (case submitToHedera execute (''PATIENT|'' @ hash) of
             Inl err \<Rightarrow> failure 500 ''Failed to log patient to Hedera''
           | Inr txId \<Rightarrow>
               \<lparr>status = 201, body = JObj [(''transactionId'', JStr txId), (''hash'', JStr hash)]\<rparr>))"

section \<open>Topic messages and the event loop\<close>

text \<open>
  What the SDK delivers. \<open>consensusTimestamp\<close> and \<open>runningHash\<close> hold the renderings
  that \<^verbatim>\<open>toDate().toISOString()\<close> and \<^verbatim>\<open>toString('hex')\<close> give; they are \<open>None\<close> on
  a delivered object that lacks the property, where the source's call throws.
\<close>

record topic_chunk =
  chunk_contents :: string
  chunk_sequenceNumber :: nat
  chunk_runningHash :: string

record topic_message =
  consensusTimestamp :: "string option"
  sequenceNumber :: nat
  contents :: string
  runningHash :: "string option"
  initialTransactionId :: "string option"
  chunks :: "topic_chunk list option"

text \<open>
  The calls a subscription makes on the timer, the SDK handle and the console, in order.
  A console line is kept as its text, without the pictograph that some of them start with.
\<close>

datatype call = SetTimeout nat | ClearTimeout | Subscribe | Unsubscribe
  | ConsoleLog string | ConsoleWarn string | ConsoleError string

text \<open>
  The part of the state that both replays have: whether the timer is pending, the
  promise (\<open>None\<close> while pending, then the value of the first \<^verbatim>\<open>resolve\<close> or
  \<^verbatim>\<open>reject\<close>), and the calls made so far. The array a promise resolves with is read by
  the awaiting handler before the next callback runs, so the promise holds the array
  as it is at that moment.
\<close>

record 'a task =
  timer :: bool
  promise :: "(js_error + 'a) option"
  calls :: "call list"

definition settle :: "js_error + 'a \<Rightarrow> (js_error + 'a) option \<Rightarrow> (js_error + 'a) option" where
  "settle r p = (case p of None \<Rightarrow> Some r | Some first \<Rightarrow> Some first)"

section \<open>The replay of the verification endpoints: \<^verbatim>\<open>getHederaHashes\<close>\<close>

record entry =
  type :: string
  hash :: string

text \<open>\<^verbatim>\<open>content.split("|")\<close>: the pieces between the separators, at least one.\<close>

fun split :: "char \<Rightarrow> string \<Rightarrow> string list" where
  "split c [] = [[]]"
| "split c (x # xs) =
     (if x = c then [] # split c xs
      else (case split c xs of p # ps \<Rightarrow> (x # p) # ps | [] \<Rightarrow> [[x]]))"

text \<open>
  \<^verbatim>\<open>const [type, hash] = content.split("|"); if (!type || !hash) ...\<close>: the first two
  pieces, each missing or empty piece being falsy.
\<close>

definition decode :: "string \<Rightarrow> entry option" where
  "decode content =
     (case split CHR ''|'' content of
        t # h # rest \<Rightarrow> if t = [] \<or> h = [] then None else Some \<lparr>type = t, hash = h\<rparr>
      | _ \<Rightarrow> None)"

datatype hh_event = TimerFired | OnError js_error | OnMessage topic_message

record hh_state = "entry list task" +
  logs :: "entry list"

definition hh_init :: hh_state where
  "hh_init = \<lparr>timer = True, promise = None, calls = [SetTimeout 10000, Subscribe], logs = []\<rparr>"

definition hh_timeout :: "hh_state \<Rightarrow> hh_state" where
  "hh_timeout s =
     s\<lparr>timer := False,
       calls := calls s @ [ConsoleWarn ''Timeout reached, resolving with partial logs.''],
       promise := settle (Inr (logs s)) (promise s)\<rparr>"

definition hh_error :: "js_error \<Rightarrow> hh_state \<Rightarrow> hh_state" where
  "hh_error error s =
     s\<lparr>timer := False,
       calls := calls s @ [ClearTimeout, ConsoleError ''Error during topic subscription''],
       promise := settle (Inl error) (promise s)\<rparr>"

definition hh_message :: "enat \<Rightarrow> topic_message \<Rightarrow> hh_state \<Rightarrow> hh_state" where
  "hh_message expectedCount msg s =
     (case decode (contents msg) of
        None \<Rightarrow> s\<lparr>calls := calls s @ [ConsoleWarn (''Malformed message: '' @ contents msg)]\<rparr>
      | Some e \<Rightarrow>
          (if expectedCount \<le> enat (length (logs s @ [e]))
           then s\<lparr>logs := logs s @ [e], timer := False, calls := calls s @ [ClearTimeout],
                  promise := settle (Inr (logs s @ [e])) (promise s)\<rparr>
           else s\<lparr>logs := logs s @ [e]\<rparr>))"

text \<open>The timer callback runs only while the timer is pending.\<close>

fun hh_step :: "enat \<Rightarrow> hh_state \<Rightarrow> hh_event \<Rightarrow> hh_state" where
  "hh_step expectedCount s TimerFired = (if timer s then hh_timeout s else s)"
| "hh_step expectedCount s (OnError error) = hh_error error s"
| "hh_step expectedCount s (OnMessage msg) = hh_message expectedCount msg s"

definition hh_run :: "enat \<Rightarrow> hh_event list \<Rightarrow> hh_state" where
  "hh_run expectedCount evs = foldl (hh_step expectedCount) hh_init evs"

text \<open>
  What \<^verbatim>\<open>await getHederaHashes(expectedCount)\<close> yields after the callbacks \<open>evs\<close>:
  \<open>None\<close> while the promise is pending.
\<close>

definition getHederaHashes :: "enat \<Rightarrow> hh_event list \<Rightarrow> (js_error + entry list) option" where
  "getHederaHashes expectedCount evs = promise (hh_run expectedCount evs)"

section \<open>Verification\<close>

text \<open>One element of the answer: \<^verbatim>\<open>{record, id, valid, computedHash}\<close>.\<close>

definition verdict :: "json \<Rightarrow> document \<Rightarrow> bool \<Rightarrow> string \<Rightarrow> json" where
  "verdict kind d valid computed =
     JObj [(''record'', kind), (''id'', JStr (doc_id d)), (''valid'', JBool valid),
           (''computedHash'', JStr computed)]"

text \<open>
  The two loops of \<^verbatim>\<open>GET /verify\<close>; \<open>hederaHashes\<close> is the \<^verbatim>\<open>Set\<close> of the replayed
  hashes.
\<close>

fun verify_patients :: "string set \<Rightarrow> document list \<Rightarrow> js_error + json list" where
  "verify_patients hederaHashes [] = Inr []"
| "verify_patients hederaHashes (p # ps) =
     (case hashData (patient_fields (doc_fields p)) of
        Inl err \<Rightarrow> Inl err
      | Inr computed \<Rightarrow>
          (case verify_patients hederaHashes ps of
             Inl err \<Rightarrow> Inl err
           | Inr results \<Rightarrow>
               Inr (verdict (JStr ''patient'') p (computed \<in> hederaHashes) computed # results)))"

fun verify_organs :: "string set \<Rightarrow> document list \<Rightarrow> js_error + json list" where
  "verify_organs hederaHashes [] = Inr []"
| "verify_organs hederaHashes (o' # os) =
     (case hashData (organ_fields (doc_fields o')) of
        Inl err \<Rightarrow> Inl err
      | Inr computed \<Rightarrow>
          (case verify_organs hederaHashes os of
             Inl err \<Rightarrow> Inl err
           | Inr results \<Rightarrow>
               Inr (verdict (JStr ''organ'') o' (computed \<in> hederaHashes) computed # results)))"

text \<open>
  \<^verbatim>\<open>GET /verify\<close>. \<open>evs\<close> are the callbacks of the replay, \<open>found_patients\<close> and
  \<open>found_organs\<close> what \<^verbatim>\<open>Patient.find()\<close> and \<^verbatim>\<open>Organ.find()\<close> give. The answer is
  \<open>None\<close> as long as the replay is pending.
\<close>

definition get_verify ::
  "hh_event list \<Rightarrow> js_error + document list \<Rightarrow> js_error + document list \<Rightarrow> response option" where
  "get_verify evs found_patients found_organs =
     (case getHederaHashes \<infinity> evs of
        None \<Rightarrow> None
      | Some (Inl err) \<Rightarrow> Some (failure 500 ''Verification failed'')
      | Some (Inr hederaLogs) \<Rightarrow>
          Some (case found_patients of
             Inl err \<Rightarrow> failure 500 ''Verification failed''
           | Inr ps \<Rightarrow>
               (case verify_patients (set (map hash hederaLogs)) ps of
                  Inl err \<Rightarrow> failure 500 ''Verification failed''
                | Inr results \<Rightarrow>
                    (case found_organs of
                       Inl err \<Rightarrow> failure 500 ''Verification failed''
                     | Inr os \<Rightarrow>
                         (case verify_organs (set (map hash hederaLogs)) os of
                            Inl err \<Rightarrow> failure 500 ''Verification failed''
                          | Inr results' \<Rightarrow> \<lparr>status = 200, body = JArr (results @ results')\<rparr>)))))"

text \<open>
  \<^verbatim>\<open>POST /verify\<close>, after the record is found and hashed: the replay, called as
  \<^verbatim>\<open>getHederaHashes()\<close>, then \<^verbatim>\<open>hederaLogs.some(l => l.hash === computed)\<close>.
\<close>

definition point_check :: "hh_event list \<Rightarrow> json \<Rightarrow> document \<Rightarrow> string \<Rightarrow> response option" where
  "point_check evs kind record computed =
     (case getHederaHashes \<infinity> evs of
        None \<Rightarrow> None
      | Some (Inl err) \<Rightarrow> Some (failure 500 ''Verification failed'')
      | Some (Inr hederaLogs) \<Rightarrow>
          Some \<lparr>status = 200,
                body = verdict kind record (list_ex (\<lambda>l. hash l = computed) hederaLogs) computed\<rparr>)"

text \<open>
  \<open>patient_findById\<close> and \<open>organ_findById\<close> are \<^verbatim>\<open>Patient.findById\<close> and
  \<^verbatim>\<open>Organ.findById\<close>: the document, \<^verbatim>\<open>null\<close>, or an error.
\<close>

definition post_verify ::
  "(json \<Rightarrow> js_error + document option) \<Rightarrow> (json \<Rightarrow> js_error + document option)
   \<Rightarrow> hh_event list \<Rightarrow> (string \<times> json) list \<Rightarrow> response option" where
  "post_verify patient_findById organ_findById evs req_body =
     (if read_prop req_body ''type'' = JStr ''patient'' then
        (case patient_findById (read_prop req_body ''id'') of
           Inl err \<Rightarrow> Some (failure 500 ''Verification failed'')
         | Inr None \<Rightarrow> Some (failure 404 ''Patient not found'')
         | Inr (Some record) \<Rightarrow>
             (case hashData (patient_fields (doc_fields record)) of
                Inl err \<Rightarrow> Some (failure 500 ''Verification failed'')
              | Inr computed \<Rightarrow> point_check evs (JStr ''patient'') record computed))
      else if read_prop req_body ''type'' = JStr ''organ'' then
        (case organ_findById (read_prop req_body ''id'') of
           Inl err \<Rightarrow> Some (failure 500 ''Verification failed'')
         | Inr None \<Rightarrow> Some (failure 404 ''Organ not found'')
         | Inr (Some record) \<Rightarrow>
             (case hashData (organ_fields (doc_fields record)) of
                Inl err \<Rightarrow> Some (failure 500 ''Verification failed'')
              | Inr computed \<Rightarrow> point_check evs (JStr ''organ'') record computed))
      else Some (failure 400 ''Invalid type specified''))"

section \<open>The replay of \<^verbatim>\<open>GET /logs\<close>\<close>

definition chunk_json :: "topic_chunk \<Rightarrow> json" where
  "chunk_json chunk =
     JObj [(''contents'', JStr (chunk_contents chunk)),
           (''sequenceNumber'', JStr (dec_nat (chunk_sequenceNumber chunk))),
           (''runningHash'', JStr (chunk_runningHash chunk))]"

definition parseTopicMessage :: "topic_message \<Rightarrow> js_error + json" where
  "parseTopicMessage msg =
     (case consensusTimestamp msg of
        None \<Rightarrow> Inl TypeError
      | Some ts \<Rightarrow>
          (case runningHash msg of
             None \<Rightarrow> Inl TypeError
           | Some rh \<Rightarrow>
               Inr (JObj [(''timestamp'', JStr ts),
                          (''sequenceNumber'', JStr (dec_nat (sequenceNumber msg))),
                          (''message'', JStr (contents msg)),
                          (''runningHash'', JStr rh),
                          (''transactionId'',
                             (case initialTransactionId msg of
                                None \<Rightarrow> JNull
                              | Some t \<Rightarrow> if t = [] then JNull else JStr t)),
                          (''chunks'',
                             (case chunks msg of
                                None \<Rightarrow> JUndefined
                              | Some cs \<Rightarrow> JArr (map chunk_json cs)))])))"

record logs_state = "json list task" +
  messages :: "json list"
  seenSequenceNumbers :: "string set"

definition logs_init :: logs_state where
  "logs_init = \<lparr>timer = True, promise = None, calls = [SetTimeout 10000, Subscribe],
                messages = [], seenSequenceNumbers = {}\<rparr>"

definition handleMessage :: "topic_message \<Rightarrow> logs_state \<Rightarrow> logs_state" where
  "handleMessage msg s =
     (if dec_nat (sequenceNumber msg) \<in> seenSequenceNumbers s
      then s\<lparr>calls := calls s @ [ConsoleLog (''Skipping duplicate message: '' @ dec_nat (sequenceNumber msg))]\<rparr>
      else (case parseTopicMessage msg of
              Inr parsed \<Rightarrow>
                s\<lparr>seenSequenceNumbers := insert (dec_nat (sequenceNumber msg)) (seenSequenceNumbers s),
                  calls := calls s @ [ConsoleLog (''Decoded message: '' @ contents msg)],
                  messages := messages s @ [parsed]\<rparr>
            | Inl parseError \<Rightarrow>
                s\<lparr>seenSequenceNumbers := insert (dec_nat (sequenceNumber msg)) (seenSequenceNumbers s),
                  calls := calls s @ [ConsoleError ''Error parsing message'']\<rparr>))"

definition cleanup :: "logs_state \<Rightarrow> logs_state" where
  "cleanup s = s\<lparr>timer := False, calls := calls s @ [Unsubscribe, ClearTimeout]\<rparr>"

definition onComplete :: "logs_state \<Rightarrow> logs_state" where
  "onComplete s = (cleanup s)\<lparr>promise := settle (Inr (messages s)) (promise s)\<rparr>"

definition onError :: "js_error \<Rightarrow> logs_state \<Rightarrow> logs_state" where
  "onError err s = (cleanup s)\<lparr>promise := settle (Inl err) (promise s)\<rparr>"

text \<open>
  The argument of the second callback: a message (it has \<^verbatim>\<open>contents\<close>), an error,
  or nothing.
\<close>

datatype callback_arg = AMessage topic_message | AnError js_error | Nothing

datatype logs_event = LogsTimerFired | SuccessCb topic_message | ErrorCb callback_arg | CompleteCb

definition log :: "string \<Rightarrow> logs_state \<Rightarrow> logs_state" where
  "log line s = s\<lparr>calls := calls s @ [ConsoleLog line]\<rparr>"

fun logs_step :: "logs_state \<Rightarrow> logs_event \<Rightarrow> logs_state" where
  "logs_step s LogsTimerFired =
     (if timer s then onComplete (log ''Subscription timeout reached'' s) else s)"
| "logs_step s (SuccessCb msg) = handleMessage msg (log ''Message received in success callback'' s)"
| "logs_step s (ErrorCb (AMessage msg)) =
     handleMessage msg (log ''Message received in error callback'' s)"
| "logs_step s (ErrorCb (AnError err)) =
     onError err (s\<lparr>calls := calls s @ [ConsoleError ''Subscription error'']\<rparr>)"
| "logs_step s (ErrorCb Nothing) =
     onError (Error ''Unknown subscription error'')
       (s\<lparr>calls := calls s @ [ConsoleError ''Subscription error'']\<rparr>)"
| "logs_step s CompleteCb = onComplete (log ''Subscription completed'' s)"

definition logs_run :: "logs_event list \<Rightarrow> logs_state" where
  "logs_run evs = foldl logs_step logs_init evs"

subsection \<open>The sort\<close>

text \<open>
  \<^verbatim>\<open>parseInt\<close> on the strings that reach it here, the renderings of sequence numbers:
  the value of the leading decimal digits, \<^verbatim>\<open>NaN\<close> (\<open>None\<close>) when there is none. The
  value is exact, as a JavaScript number is below \<open>2 ^ 53\<close>.
\<close>

definition is_digit :: "char \<Rightarrow> bool" where
  "is_digit c = (48 \<le> (of_char c :: nat) \<and> (of_char c :: nat) \<le> 57)"

definition parseInt :: "string \<Rightarrow> nat option" where
  "parseInt s =
     (if takeWhile is_digit s = [] then None
      else Some (foldl (\<lambda>n c. 10 * n + (of_char c - 48)) 0 (takeWhile is_digit s)))"

text \<open>
  \<^verbatim>\<open>parseInt(a.sequenceNumber)\<close> for an element of \<^verbatim>\<open>messages\<close>; every element is
  built by \<^verbatim>\<open>parseTopicMessage\<close> and holds a string there.
\<close>

definition seq_key :: "json \<Rightarrow> nat option" where
  "seq_key a = (case field a ''sequenceNumber'' of JStr s \<Rightarrow> parseInt s | _ \<Rightarrow> None)"

text \<open>
  The comparator \<^verbatim>\<open>(a, b) => parseInt(a.sequenceNumber) - parseInt(b.sequenceNumber)\<close>;
  a \<^verbatim>\<open>NaN\<close> result counts as 0 in \<^verbatim>\<open>Array.prototype.sort\<close>.
\<close>

definition compare_seq :: "json \<Rightarrow> json \<Rightarrow> int" where
  "compare_seq a b =
     (case seq_key a of
        None \<Rightarrow> 0
      | Some x \<Rightarrow> (case seq_key b of None \<Rightarrow> 0 | Some y \<Rightarrow> int x - int y))"

text \<open>
  \<^verbatim>\<open>Array.prototype.sort\<close> is stable, and every stable sort gives the same array for a
  consistent comparator; insertion sort stands for it.
\<close>

fun insort_cmp :: "('a \<Rightarrow> 'a \<Rightarrow> int) \<Rightarrow> 'a \<Rightarrow> 'a list \<Rightarrow> 'a list" where
  "insort_cmp c x [] = [x]"
| "insort_cmp c x (y # ys) = (if c x y \<le> 0 then x # y # ys else y # insort_cmp c x ys)"

definition array_sort :: "('a \<Rightarrow> 'a \<Rightarrow> int) \<Rightarrow> 'a list \<Rightarrow> 'a list" where
  "array_sort c xs = foldr (insort_cmp c) xs []"

definition error_message :: "js_error \<Rightarrow> json" where
  "error_message e = (case e of Error m \<Rightarrow> JStr m | TypeError \<Rightarrow> JStr ''TypeError'')"

text \<open>
  The window a replay yields once its promise is settled, and the answer of
  \<^verbatim>\<open>GET /logs\<close>.
\<close>

definition replay_window :: "logs_event list \<Rightarrow> (js_error + json list) option" where
  "replay_window evs = map_option (map_sum id (array_sort compare_seq)) (promise (logs_run evs))"

definition get_logs :: "logs_event list \<Rightarrow> response option" where
  "get_logs evs =
     (case replay_window evs of
        None \<Rightarrow> None
      | Some (Inl error) \<Rightarrow>
          Some \<lparr>status = 500,
                body = JObj [(''success'', JBool False), (''error'', JStr ''Failed to fetch logs''),
                             (''details'', error_message error)]\<rparr>
      | Some (Inr sorted_messages) \<Rightarrow>
          Some \<lparr>status = 200,
                body = JObj [(''success'', JBool True),
                             (''count'', JNum (int (length sorted_messages))),
                             (''messages'', JArr sorted_messages)]\<rparr>)"

section \<open>The decoding rule as the specification words it\<close>

text \<open>
  The specification decodes an entry by cutting it at the first \<^verbatim>\<open>|\<close> and calls it
  well formed when that gives two non-empty parts.
\<close>

definition split_first :: "char \<Rightarrow> string \<Rightarrow> (string \<times> string) option" where
  "split_first c s =
     (if c \<in> set s then Some (takeWhile (\<lambda>x. x \<noteq> c) s, tl (dropWhile (\<lambda>x. x \<noteq> c) s))
      else None)"

definition spec_well_formed :: "string \<Rightarrow> bool" where
  "spec_well_formed content =
     (case split_first CHR ''|'' content of
        None \<Rightarrow> False
      | Some (t, h) \<Rightarrow> t \<noteq> [] \<and> h \<noteq> [])"


section \<open>Notions used in the statements\<close>

text \<open>
  The contents of the messages that the callbacks of a verification replay delivered, the
  messages that the callbacks of a \<^verbatim>\<open>GET /logs\<close> replay handed to \<^verbatim>\<open>handleMessage\<close>,
  the keys of an object, and the anchor hash of a stored document as the handlers
  recompute it.
\<close>

fun delivered :: "hh_event list \<Rightarrow> string list" where
  "delivered [] = []"
| "delivered (OnMessage msg # evs) = contents msg # delivered evs"
| "delivered (e # evs) = delivered evs"

fun keys :: "json \<Rightarrow> string list" where
  "keys (JObj kvs) = map fst kvs"
| "keys v = []"

definition patient_hash :: "document \<Rightarrow> string" where
  "patient_hash p = sha256_hex (serialize (patient_fields (doc_fields p)))"

definition organ_hash :: "document \<Rightarrow> string" where
  "organ_hash o' = sha256_hex (serialize (organ_fields (doc_fields o')))"





section \<open>Concrete inputs\<close>

text \<open>
  Concrete inputs: a patient and an organ with their stored documents, a delivered topic
  message, a ledger that accepts and one that refuses every submission, and store
  functions that save, find or miss a document.
\<close>

definition alice :: "(string \<times> json) list" where
  "alice = [(''name'', JStr ''Alice''), (''bloodType'', JStr ''O+''), (''age'', JNum 30)]"

definition alice_doc :: document where
  "alice_doc = \<lparr>doc_id = ''665f1c2e9b1d8a0012345678'', doc_fields = alice\<rparr>"

definition topic_message_of :: "nat \<Rightarrow> string \<Rightarrow> topic_message" where
  "topic_message_of n c =
     \<lparr>consensusTimestamp = Some ''2025-06-01T10:00:00.000Z'', sequenceNumber = n, contents = c,
      runningHash = Some ''00'', initialTransactionId = None, chunks = None\<rparr>"

definition ledger_up :: "string \<Rightarrow> js_error + string" where
  "ledger_up message = Inr ''0.0.1001@1717236000.000000000''"

definition ledger_down :: "string \<Rightarrow> js_error + string" where
  "ledger_down message = Inl (Error ''UNAVAILABLE'')"

definition save_as :: "string \<Rightarrow> (string \<times> json) list \<Rightarrow> js_error + document" where
  "save_as i fs = Inr \<lparr>doc_id = i, doc_fields = fs\<rparr>"

definition find_alice :: "json \<Rightarrow> js_error + document option" where
  "find_alice i = Inr (if i = JStr (doc_id alice_doc) then Some alice_doc else None)"

definition find_none :: "json \<Rightarrow> js_error + document option" where
  "find_none i = Inr None"

definition kidney :: "(string \<times> json) list" where
  "kidney = [(''type'', JStr ''kidney''), (''bloodType'', JStr ''O+''), (''donorId'', JStr ''d1'')]"

definition kidney_doc :: document where
  "kidney_doc = \<lparr>doc_id = ''665f1c2e9b1d8a00123456aa'', doc_fields = kidney\<rparr>"

definition find_kidney :: "json \<Rightarrow> js_error + document option" where
  "find_kidney i = Inr (if i = JStr (doc_id kidney_doc) then Some kidney_doc else None)"

definition empty_db :: db where
  "empty_db = \<lparr>patients = [], organs = []\<rparr>"

section \<open>The digest\<close>

lemma hashData_obj: "hashData (JObj kvs) = Inr (sha256_hex (serialize (JObj kvs)))"
  by (simp add: hashData_def JSON_stringify_def)

lemma digit_char_hex: "d < 16 \<Longrightarrow> digit_char d \<in> set ''0123456789abcdef''"
  unfolding digit_char_def by (rule nth_mem) simp

lemma set_hex32: "set (hex32 w) \<subseteq> set ''0123456789abcdef''"
proof -
  define H where "H = set ''0123456789abcdef''"
  have "digit_char ((w div d) mod 16) \<in> H" for d
    unfolding H_def by (rule digit_char_hex) simp
  then have "set (hex32 w) \<subseteq> H"
    unfolding hex32_def by (simp only: set_map image_subset_iff) blast
  then show ?thesis by (simp only: H_def)
qed

lemma length_hex32: "length (hex32 w) = 8"
  by (simp add: hex32_def)

lemma length_mix: "length (mix a b v) = 8"
  by (simp add: mix_def)

lemma length_rounds: "ks \<noteq> [] \<Longrightarrow> length (rounds ks s) = 8"
proof (induction ks arbitrary: s)
  case Nil
  then show ?case by simp
next
  case (Cons k ks)
  show ?case
  proof (cases ks)
    case Nil
    then show ?thesis by (cases s) (simp add: length_mix)
  next
    case (Cons k' ks')
    then show ?thesis using Cons.IH by simp
  qed
qed

lemma K256_nonempty: "K256 \<noteq> []"
  by (simp add: K256_def)

lemma length_compress: "length hs = 8 \<Longrightarrow> length (compress hs b) = 8"
  by (simp add: compress_def length_rounds K256_nonempty)

lemma length_blocks256: "length hs = 8 \<Longrightarrow> length (blocks256 bs hs) = 8"
  by (induction bs arbitrary: hs) (simp_all add: length_compress)

lemma length_sha256: "length (sha256 m) = 8"
  by (simp add: sha256_def length_blocks256 H256_def)

lemma set_sha256_hex: "set (sha256_hex s) \<subseteq> set ''0123456789abcdef''"
proof -
  define H where "H = set ''0123456789abcdef''"
  have "set (hex32 w) \<subseteq> H" for w
    unfolding H_def by (rule set_hex32)
  then have "set (concat (map hex32 ws)) \<subseteq> H" for ws
    by (induction ws) simp_all
  then show ?thesis by (simp only: H_def sha256_hex_def)
qed

lemma length_sha256_hex: "length (sha256_hex s) = 64"
proof -
  have "length (concat (map hex32 ws)) = 8 * length ws" for ws
    by (induction ws) (simp_all add: length_hex32)
  then show ?thesis by (simp add: sha256_hex_def length_sha256)
qed

lemma sha256_hex_no_bar: "CHR ''|'' \<notin> set (sha256_hex s)"
  using set_sha256_hex [of s] by auto

lemma sha256_hex_nonempty: "sha256_hex s \<noteq> []"
  using length_sha256_hex [of s] by auto

section \<open>Decoding an anchor message\<close>

lemma split_nonempty: "split c s \<noteq> []"
  by (induction s) (auto split: list.splits)

lemma split_no_sep: "c \<notin> set s \<Longrightarrow> split c s = [s]"
  by (induction s) auto

lemma split_at_first: "c \<notin> set t \<Longrightarrow> split c (t @ c # r) = t # split c r"
  by (induction t) (auto simp: split_nonempty split: list.splits)

lemma decode_two_parts:
  "\<lbrakk>t \<noteq> []; CHR ''|'' \<notin> set t; h \<noteq> []; CHR ''|'' \<notin> set h\<rbrakk>
   \<Longrightarrow> decode (t @ CHR ''|'' # h) = Some \<lparr>type = t, hash = h\<rparr>"
  by (simp add: decode_def split_at_first split_no_sep)

lemma decode_patient_anchor:
  "decode (''PATIENT|'' @ sha256_hex s) = Some \<lparr>type = ''PATIENT'', hash = sha256_hex s\<rparr>"
  using decode_two_parts [of "''PATIENT''" "sha256_hex s"]
  by (simp add: sha256_hex_no_bar sha256_hex_nonempty)

lemma decode_organ_anchor:
  "decode (''ORGAN|'' @ sha256_hex s) = Some \<lparr>type = ''ORGAN'', hash = sha256_hex s\<rparr>"
  using decode_two_parts [of "''ORGAN''" "sha256_hex s"]
  by (simp add: sha256_hex_no_bar sha256_hex_nonempty)

section \<open>Invariants of the verification replay\<close>

lemma delivered_append: "delivered (xs @ ys) = delivered xs @ delivered ys"
  by (induction xs rule: delivered.induct) simp_all

lemma delivered_messages: "delivered (map OnMessage ms) = map contents ms"
  by (induction ms) simp_all

lemma hh_run_Nil: "hh_run ec [] = hh_init"
  by (simp add: hh_run_def)

lemma hh_run_snoc: "hh_run ec (evs @ [e]) = hh_step ec (hh_run ec evs) e"
  by (simp add: hh_run_def)

lemma hh_run_append: "hh_run ec (xs @ ys) = foldl (hh_step ec) (hh_run ec xs) ys"
  by (simp add: hh_run_def)

lemma settle_Some: "settle r (Some x) = Some x"
  by (simp add: settle_def)

lemma settle_None: "settle r None = Some r"
  by (simp add: settle_def)

lemma promise_kept_step: "promise s = Some r \<Longrightarrow> promise (hh_step ec s e) = Some r"
  by (cases e)
     (simp_all add: hh_timeout_def hh_error_def hh_message_def settle_Some split: option.splits)

lemma promise_kept: "promise s = Some r \<Longrightarrow> promise (foldl (hh_step ec) s evs) = Some r"
  by (induction evs arbitrary: s) (simp_all add: promise_kept_step)

lemma logs_step:
  "logs (hh_step ec s e) =
     logs s @ (case e of OnMessage msg \<Rightarrow> (case decode (contents msg) of None \<Rightarrow> [] | Some en \<Rightarrow> [en])
               | _ \<Rightarrow> [])"
  by (cases e) (simp_all add: hh_timeout_def hh_error_def hh_message_def split: option.splits)

lemma logs_run: "logs (hh_run ec evs) = List.map_filter decode (delivered evs)"
proof (induction evs rule: rev_induct)
  case Nil
  show ?case by (simp add: hh_run_Nil hh_init_def List.map_filter_def)
next
  case (snoc e evs)
  have "logs (hh_run ec (evs @ [e])) =
          logs (hh_run ec evs) @ (case e of OnMessage msg \<Rightarrow>
             (case decode (contents msg) of None \<Rightarrow> [] | Some en \<Rightarrow> [en]) | _ \<Rightarrow> [])"
    by (simp only: hh_run_snoc logs_step)
  then show ?case
    by (cases e) (auto simp: snoc delivered_append List.map_filter_def split: option.splits)
qed

lemma armed_step: "(promise s = None \<longrightarrow> timer s) \<Longrightarrow>
   (promise (hh_step ec s e) = None \<longrightarrow> timer (hh_step ec s e))"
  by (cases e)
     (auto simp: hh_timeout_def hh_error_def hh_message_def settle_def split: option.splits)

lemma armed_run:
  assumes "promise (hh_run ec evs) = None"
  shows "timer (hh_run ec evs)"
proof -
  have "promise (hh_run ec evs) = None \<longrightarrow> timer (hh_run ec evs)"
  proof (induction evs rule: rev_induct)
    case Nil
    show ?case by (simp add: hh_run_Nil hh_init_def)
  next
    case (snoc e evs)
    then show ?case unfolding hh_run_snoc by (rule armed_step)
  qed
  with assms show ?thesis by simp
qed

lemma deadline_resolves:
  assumes "getHederaHashes ec pre = None"
  shows "getHederaHashes ec (pre @ TimerFired # post) = Some (Inr (List.map_filter decode (delivered pre)))"
proof -
  from assms have pending: "promise (hh_run ec pre) = None"
    by (simp add: getHederaHashes_def)
  then have "timer (hh_run ec pre)" by (rule armed_run)
  with pending have "promise (hh_step ec (hh_run ec pre) TimerFired) = Some (Inr (logs (hh_run ec pre)))"
    by (simp add: hh_timeout_def settle_None)
  then have "promise (foldl (hh_step ec) (hh_step ec (hh_run ec pre) TimerFired) post)
               = Some (Inr (logs (hh_run ec pre)))"
    by (rule promise_kept)
  then show ?thesis
    by (simp add: getHederaHashes_def hh_run_append logs_run)
qed

lemma no_unsubscribe_step: "Unsubscribe \<notin> set (calls s) \<Longrightarrow> Unsubscribe \<notin> set (calls (hh_step ec s e))"
  by (cases e) (auto simp: hh_timeout_def hh_error_def hh_message_def split: option.splits)

lemma no_unsubscribe: "Unsubscribe \<notin> set (calls (hh_run ec evs))"
proof (induction evs rule: rev_induct)
  case Nil
  show ?case by (simp add: hh_run_Nil hh_init_def)
next
  case (snoc e evs)
  then show ?case unfolding hh_run_snoc by (rule no_unsubscribe_step)
qed

lemma message_keeps_pending: "promise (hh_message \<infinity> msg s) = promise s"
  by (simp add: hh_message_def split: option.splits)

lemma messages_keep_pending: "promise (foldl (hh_step \<infinity>) s (map OnMessage ms)) = promise s"
  by (induction ms arbitrary: s) (simp_all add: message_keeps_pending)

lemma full_replay_pending: "getHederaHashes \<infinity> (map OnMessage ms) = None"
  by (simp add: getHederaHashes_def hh_run_def messages_keep_pending hh_init_def)

lemma full_replay_deadline:
  "getHederaHashes \<infinity> (map OnMessage ms @ TimerFired # post)
     = Some (Inr (List.map_filter decode (map contents ms)))"
  using deadline_resolves [OF full_replay_pending, of ms post] by (simp add: delivered_messages)

section \<open>Sequence numbers and their renderings\<close>



declare dec_nat.simps [simp del]







section \<open>Invariants of the \<^verbatim>\<open>GET /logs\<close> replay\<close>

lemma logs_run_Nil: "logs_run [] = logs_init"
  by (simp add: logs_run_def)

lemma logs_run_snoc: "logs_run (evs @ [e]) = logs_step (logs_run evs) e"
  by (simp add: logs_run_def)

lemma logs_run_append: "logs_run (xs @ ys) = foldl logs_step (logs_run xs) ys"
  by (simp add: logs_run_def)

lemma handleMessage_task:
  "promise (handleMessage msg s) = promise s" "timer (handleMessage msg s) = timer s"
  by (simp_all add: handleMessage_def split: sum.splits)

lemma log_fields:
  "promise (log l s) = promise s" "timer (log l s) = timer s" "messages (log l s) = messages s"
  "seenSequenceNumbers (log l s) = seenSequenceNumbers s"
  by (simp_all add: log_def)

lemma logs_promise_kept_step: "promise s = Some r \<Longrightarrow> promise (logs_step s e) = Some r"
  by (induction s e rule: logs_step.induct)
     (simp_all add: handleMessage_task log_fields onComplete_def onError_def cleanup_def settle_Some)

lemma logs_promise_kept: "promise s = Some r \<Longrightarrow> promise (foldl logs_step s evs) = Some r"
  by (induction evs arbitrary: s) (simp_all add: logs_promise_kept_step)

lemma logs_armed_step:
  "(promise s = None \<longrightarrow> timer s) \<Longrightarrow> (promise (logs_step s e) = None \<longrightarrow> timer (logs_step s e))"
  by (induction s e rule: logs_step.induct)
     (simp_all add: handleMessage_task log_fields onComplete_def onError_def cleanup_def settle_def
        split: option.splits)

lemma logs_armed_run:
  assumes "promise (logs_run evs) = None"
  shows "timer (logs_run evs)"
proof -
  have "promise (logs_run evs) = None \<longrightarrow> timer (logs_run evs)"
  proof (induction evs rule: rev_induct)
    case Nil
    show ?case by (simp add: logs_run_Nil logs_init_def)
  next
    case (snoc e evs)
    then show ?case unfolding logs_run_snoc by (rule logs_armed_step)
  qed
  with assms show ?thesis by simp
qed

lemma logs_deadline_resolves:
  assumes "promise (logs_run pre) = None"
  shows "promise (logs_run (pre @ LogsTimerFired # post)) = Some (Inr (messages (logs_run pre)))"
proof -
  from assms have "timer (logs_run pre)" by (rule logs_armed_run)
  with assms have "promise (logs_step (logs_run pre) LogsTimerFired) = Some (Inr (messages (logs_run pre)))"
    by (simp add: onComplete_def cleanup_def log_def settle_None)
  then have "promise (foldl logs_step (logs_step (logs_run pre) LogsTimerFired) post)
               = Some (Inr (messages (logs_run pre)))"
    by (rule logs_promise_kept)
  then show ?thesis by (simp add: logs_run_append)
qed










subsection \<open>The sort\<close>





section \<open>The verdicts\<close>

lemma hashData_patient: "hashData (patient_fields (doc_fields p)) = Inr (patient_hash p)"
  by (simp add: patient_hash_def patient_fields_def hashData_obj)

lemma hashData_organ: "hashData (organ_fields (doc_fields p)) = Inr (organ_hash p)"
  by (simp add: organ_hash_def organ_fields_def hashData_obj)

lemma verify_patients_eq:
  "verify_patients S ps = Inr (map (\<lambda>p. verdict (JStr ''patient'') p (patient_hash p \<in> S) (patient_hash p)) ps)"
  by (induction ps) (simp_all add: hashData_patient)

lemma verify_organs_eq:
  "verify_organs S os = Inr (map (\<lambda>p. verdict (JStr ''organ'') p (organ_hash p \<in> S) (organ_hash p)) os)"
  by (induction os) (simp_all add: hashData_organ)

lemma member_hashes: "(c \<in> set (map hash ls)) = (\<exists>l \<in> set ls. hash l = c)"
  by auto

lemma get_verify_resolved:
  assumes "getHederaHashes \<infinity> evs = Some (Inr hederaLogs)"
  shows "get_verify evs (Inr ps) (Inr os) =
           Some \<lparr>status = 200,
                 body = JArr (map (\<lambda>p. verdict (JStr ''patient'') p
                                        (\<exists>l \<in> set hederaLogs. hash l = patient_hash p) (patient_hash p)) ps
                              @ map (\<lambda>p. verdict (JStr ''organ'') p
                                        (\<exists>l \<in> set hederaLogs. hash l = organ_hash p) (organ_hash p)) os)\<rparr>"
  using assms
  by (simp add: get_verify_def verify_patients_eq verify_organs_eq member_hashes del: set_map)

lemma point_check_resolved:
  assumes "getHederaHashes \<infinity> evs = Some (Inr hederaLogs)"
  shows "point_check evs kind record computed =
           Some \<lparr>status = 200,
                 body = verdict kind record (\<exists>l \<in> set hederaLogs. hash l = computed) computed\<rparr>"
  using assms by (simp add: point_check_def list_ex_iff)

lemma post_verify_patient:
  assumes "read_prop req_body ''type'' = JStr ''patient''"
    and "patient_findById (read_prop req_body ''id'') = Inr (Some record)"
  shows "post_verify patient_findById organ_findById evs req_body =
           point_check evs (JStr ''patient'') record (patient_hash record)"
  using assms by (simp add: post_verify_def hashData_patient)

lemma post_verify_organ:
  assumes "read_prop req_body ''type'' = JStr ''organ''"
    and "organ_findById (read_prop req_body ''id'') = Inr (Some record)"
  shows "post_verify patient_findById organ_findById evs req_body =
           point_check evs (JStr ''organ'') record (organ_hash record)"
  using assms by (simp add: post_verify_def hashData_organ)

section \<open>The decoding rule of the source and the one of the specification\<close>

lemma split_unfold:
  "split c s = takeWhile (\<lambda>x. x \<noteq> c) s #
     (if c \<in> set s then split c (tl (dropWhile (\<lambda>x. x \<noteq> c) s)) else [])"
  by (induction s) (auto split: list.splits)

lemma decode_Some_well_formed:
  assumes "decode content = Some e"
  shows "spec_well_formed content"
proof -
  from assms obtain t h rest where s: "split CHR ''|'' content = t # h # rest" and ne: "t \<noteq> []" "h \<noteq> []"
    by (auto simp: decode_def split: list.splits if_splits)
  let ?r = "tl (dropWhile (\<lambda>x. x \<noteq> CHR ''|'') content)"
  from s have mem: "CHR ''|'' \<in> set content"
    by (subst (asm) split_unfold) (auto split: if_splits)
  with s have t: "t = takeWhile (\<lambda>x. x \<noteq> CHR ''|'') content" and r: "split CHR ''|'' ?r = h # rest"
    by (subst (asm) split_unfold, simp)+
  from r ne have "?r \<noteq> []" by auto
  with mem t ne show ?thesis by (simp add: spec_well_formed_def split_first_def)
qed

lemma malformed_skipped: "\<not> spec_well_formed content \<Longrightarrow> decode content = None"
  using decode_Some_well_formed by (cases "decode content") auto

lemma skip_step:
  "decode (contents msg) = None \<Longrightarrow>
   hh_step ec s (OnMessage msg) = s\<lparr>calls := calls s @ [ConsoleWarn (''Malformed message: '' @ contents msg)]\<rparr>"
  by (simp add: hh_message_def)

section \<open>The handlers at the deadline and on an anchor failure\<close>

lemma length_insort_cmp: "length (insort_cmp c x ys) = Suc (length ys)"
  by (induction ys) simp_all

lemma length_array_sort: "length (array_sort c xs) = length xs"
  by (induction xs) (simp_all add: array_sort_def length_insort_cmp)

lemma get_logs_deadline:
  assumes "replay_window pre = None"
  shows "get_logs (pre @ LogsTimerFired # post) =
           Some \<lparr>status = 200,
                 body = JObj [(''success'', JBool True),
                              (''count'', JNum (int (length (messages (logs_run pre))))),
                              (''messages'', JArr (array_sort compare_seq (messages (logs_run pre))))]\<rparr>"
proof -
  from assms have "promise (logs_run pre) = None" by (simp add: replay_window_def)
  then have "promise (logs_run (pre @ LogsTimerFired # post)) = Some (Inr (messages (logs_run pre)))"
    by (rule logs_deadline_resolves)
  then show ?thesis by (simp add: get_logs_def replay_window_def length_array_sort)
qed

lemma post_patients_anchor_failed:
  assumes "execute (''PATIENT|'' @ sha256_hex (serialize (patient_fields patient))) = Inl err"
  shows "post_patients execute create store patient = (failure 500 ''Failed to log patient to Hedera'', store)"
  using assms by (simp add: post_patients_def patient_fields_def hashData_obj submitToHedera_def)

lemma post_organs_anchor_failed:
  assumes "execute (''ORGAN|'' @ sha256_hex (serialize (organ_fields organ))) = Inl err"
  shows "post_organs execute create store organ = (failure 500 ''Failed to log organ to Hedera'', store)"
  using assms by (simp add: post_organs_def organ_fields_def hashData_obj submitToHedera_def)

lemma post_patients_stored:
  assumes "snd (post_patients execute create store patient) \<noteq> store"
  shows "\<exists>txId. execute (''PATIENT|'' @ sha256_hex (serialize (patient_fields patient))) = Inr txId"
  using assms
  by (cases "execute (''PATIENT|'' @ sha256_hex (serialize (patient_fields patient)))")
     (simp_all add: post_patients_def patient_fields_def hashData_obj submitToHedera_def)

lemma post_organs_stored:
  assumes "snd (post_organs execute create store organ) \<noteq> store"
  shows "\<exists>txId. execute (''ORGAN|'' @ sha256_hex (serialize (organ_fields organ))) = Inr txId"
  using assms
  by (cases "execute (''ORGAN|'' @ sha256_hex (serialize (organ_fields organ)))")
     (simp_all add: post_organs_def organ_fields_def hashData_obj submitToHedera_def)

lemma verdict_keys: "keys (verdict kind d v c) = [''record'', ''id'', ''valid'', ''computedHash'']"
  by (simp add: verdict_def)

lemma verdict_no_replayComplete: "field (verdict kind d v c) ''replayComplete'' = JUndefined"
  by (simp add: verdict_def read_prop_def)

section \<open>Evaluating the digest\<close>

lemma replicate_num: "replicate (numeral v) x = x # replicate (numeral v - 1) x"
  by (simp add: numeral_eq_Suc)

lemma chunks16_num: "chunks16 (numeral v) ws = take 16 ws # chunks16 (numeral v - 1) (drop 16 ws)"
  by (simp add: numeral_eq_Suc)

lemma rot_consts:
  "rotr 2 x = x div 4 + x mod 4 * 1073741824"
  "rotr 13 x = x div 8192 + x mod 8192 * 524288"
  "rotr 22 x = x div 4194304 + x mod 4194304 * 1024"
  "rotr 6 x = x div 64 + x mod 64 * 67108864"
  "rotr 11 x = x div 2048 + x mod 2048 * 2097152"
  "rotr 25 x = x div 33554432 + x mod 33554432 * 128"
  "rotr 7 x = x div 128 + x mod 128 * 33554432"
  "rotr 18 x = x div 262144 + x mod 262144 * 16384"
  "rotr 17 x = x div 131072 + x mod 131072 * 32768"
  "rotr 19 x = x div 524288 + x mod 524288 * 8192"
  "shr 3 x = x div 8"
  "shr 10 x = x div 1024"
  by (simp_all add: rotr_def shr_def)

lemmas sha_eval = sha256_hex_def sha256_def compress_def pad_def be64_def replicate_num chunks16_num
  H256_def K256_def mix_def next_w_def add32_def bsig0_def bsig1_def ssig0_def ssig1_def
  Ch_def Maj_def rot_consts hex32_def digit_char_def

lemma alice_digest:
  \<open>sha256_hex ''{"name":"Alice","bloodType":"O+","age":30}''
     = ''d5892db8d3f858628df1daa811ccd9ff36afcf92604e562223a64396f6a03747''\<close>
  by (simp add: sha_eval)

text \<open>A test vector of the standard that takes two blocks.\<close>

lemma two_block_vector:
  "sha256_hex ''abcdbcdecdefdefgefghfghighijhijkijkljklmklmnlmnomnopnopq''
     = ''248d6a61d20638b8e5c026930c3e6039a33ce45964ff2167f6ecedd419db06c1''"
  by (simp add: sha_eval)

lemmas json_eval = JSON_stringify_def quote_def escape_char_def number_text_def digit_char_def
  dec_nat.simps

lemma alice_text:
  \<open>serialize (patient_fields alice) = ''{"name":"Alice","bloodType":"O+","age":30}''\<close>
  by (simp add: patient_fields_def alice_def read_prop_def json_eval)

lemma alice_hash:
  "patient_hash alice_doc = ''d5892db8d3f858628df1daa811ccd9ff36afcf92604e562223a64396f6a03747''"
  by (simp only: patient_hash_def alice_doc_def document.simps alice_text alice_digest)

lemmas hh_eval = getHederaHashes_def hh_run_def hh_init_def hh_timeout_def hh_error_def
  hh_message_def settle_def decode_def topic_message_of_def


lemma alice_reordered_digest:
  \<open>sha256_hex ''{"age":30,"name":"Alice","bloodType":"O+"}''
     = ''6cd65cb2f7f29bcc38778ec5dae3da36ad74621f16bef94d800e5fd40a7b678b''\<close>
  by (simp add: sha_eval)

section \<open>The canonical form of \<^verbatim>\<open>test.js\<close>\<close>

lemma map_of_mset:
  assumes "distinct (map fst a)" "mset a = mset b"
  shows "map_of a = map_of b"
proof -
  from assms have db: "distinct (map fst b)"
    by (metis mset_eq_imp_distinct_iff mset_map)
  from assms(2) have "set a = set b" by (rule mset_eq_setD)
  with assms(1) db show ?thesis by (intro map_of_inject_set [THEN iffD2]) 
qed

lemma canonical_order_independent:
  assumes "distinct (map fst a)" "mset a = mset b"
  shows "hashData (patient_fields a) = hashData (patient_fields b)"
    and "hashData (organ_fields a) = hashData (organ_fields b)"
  using map_of_mset [OF assms] by (simp_all add: patient_fields_def organ_fields_def read_prop_def)

section \<open>The subscription of \<^verbatim>\<open>GET /logs\<close>\<close>

lemma logs_cleanup_twice:
  "count_list (calls (logs_run [LogsTimerFired, CompleteCb])) Unsubscribe = 2"
  by (simp add: logs_run_def logs_init_def onComplete_def cleanup_def log_def settle_def)

lemma logs_released_when_settled:
  "promise (logs_run evs) \<noteq> None \<Longrightarrow> Unsubscribe \<in> set (calls (logs_run evs))"
proof (induction evs rule: rev_induct)
  case Nil
  then show ?case by (simp add: logs_run_Nil logs_init_def)
next
  case (snoc e evs)
  have step: "promise (logs_step s e) \<noteq> None \<Longrightarrow>
     (promise s \<noteq> None \<longrightarrow> Unsubscribe \<in> set (calls s)) \<Longrightarrow> Unsubscribe \<in> set (calls (logs_step s e))" for s
    by (induction s e rule: logs_step.induct)
       (auto simp: handleMessage_def log_def onComplete_def onError_def cleanup_def settle_def
          split: sum.splits option.splits if_splits)
  from snoc show ?case unfolding logs_run_snoc by (intro step) auto
qed

lemma kidney_digest:
  \<open>sha256_hex ''{"type":"kidney","bloodType":"O+","donorId":"d1"}''
     = ''d5d34a2950e6447227f4e4ba799b06418bf632c908d84e0deb6cbe623460ff8b''\<close>
  by (simp add: sha_eval)

lemma kidney_text:
  \<open>serialize (organ_fields kidney) = ''{"type":"kidney","bloodType":"O+","donorId":"d1"}''\<close>
  by (simp add: organ_fields_def kidney_def read_prop_def json_eval)

lemma kidney_hash:
  "organ_hash kidney_doc = ''d5d34a2950e6447227f4e4ba799b06418bf632c908d84e0deb6cbe623460ff8b''"
  by (simp only: organ_hash_def kidney_doc_def document.simps kidney_text kidney_digest)

section \<open>The concrete runs\<close>

lemma alice_request:
  "read_prop [(''type'', JStr ''patient''), (''id'', JStr ''665f1c2e9b1d8a0012345678'')] ''type'' = JStr ''patient''"
  "find_alice (read_prop [(''type'', JStr ''patient''), (''id'', JStr ''665f1c2e9b1d8a0012345678'')] ''id'')
     = Inr (Some alice_doc)"
  by (simp_all add: read_prop_def find_alice_def alice_doc_def)

lemma kidney_request:
  "read_prop [(''type'', JStr ''organ''), (''id'', JStr ''665f1c2e9b1d8a00123456aa'')] ''type'' = JStr ''organ''"
  "find_kidney (read_prop [(''type'', JStr ''organ''), (''id'', JStr ''665f1c2e9b1d8a00123456aa'')] ''id'')
     = Inr (Some kidney_doc)"
  by (simp_all add: read_prop_def find_kidney_def kidney_doc_def)

lemma swapped_tags_replay:
  "getHederaHashes \<infinity>
     (map OnMessage
        [topic_message_of 2 ''ORGAN|d5892db8d3f858628df1daa811ccd9ff36afcf92604e562223a64396f6a03747'',
         topic_message_of 3 ''PATIENT|d5d34a2950e6447227f4e4ba799b06418bf632c908d84e0deb6cbe623460ff8b'']
      @ TimerFired # [])
   = Some (Inr [\<lparr>type = ''ORGAN'', hash = ''d5892db8d3f858628df1daa811ccd9ff36afcf92604e562223a64396f6a03747''\<rparr>,
               \<lparr>type = ''PATIENT'', hash = ''d5d34a2950e6447227f4e4ba799b06418bf632c908d84e0deb6cbe623460ff8b''\<rparr>])"
  by (simp add: hh_eval)

lemma swapped_tags_decoded:
  "List.map_filter decode (map contents
        [topic_message_of 2 ''ORGAN|d5892db8d3f858628df1daa811ccd9ff36afcf92604e562223a64396f6a03747'',
         topic_message_of 3 ''PATIENT|d5d34a2950e6447227f4e4ba799b06418bf632c908d84e0deb6cbe623460ff8b''])
   = [\<lparr>type = ''ORGAN'', hash = ''d5892db8d3f858628df1daa811ccd9ff36afcf92604e562223a64396f6a03747''\<rparr>,
      \<lparr>type = ''PATIENT'', hash = ''d5d34a2950e6447227f4e4ba799b06418bf632c908d84e0deb6cbe623460ff8b''\<rparr>]"
  by (simp add: List.map_filter_def decode_def topic_message_of_def)

lemma swapped_tags_valid:
  "(\<exists>l \<in> set [\<lparr>type = ''ORGAN'', hash = ''d5892db8d3f858628df1daa811ccd9ff36afcf92604e562223a64396f6a03747''\<rparr>,
               \<lparr>type = ''PATIENT'', hash = ''d5d34a2950e6447227f4e4ba799b06418bf632c908d84e0deb6cbe623460ff8b''\<rparr>].
        hash l = ''d5892db8d3f858628df1daa811ccd9ff36afcf92604e562223a64396f6a03747'') = True"
  "(\<exists>l \<in> set [\<lparr>type = ''ORGAN'', hash = ''d5892db8d3f858628df1daa811ccd9ff36afcf92604e562223a64396f6a03747''\<rparr>,
               \<lparr>type = ''PATIENT'', hash = ''d5d34a2950e6447227f4e4ba799b06418bf632c908d84e0deb6cbe623460ff8b''\<rparr>].
        hash l = ''d5d34a2950e6447227f4e4ba799b06418bf632c908d84e0deb6cbe623460ff8b'') = True"
  by simp_all

section \<open>The window of \<^verbatim>\<open>GET /logs\<close> at the deadline\<close>












section \<open>The claims\<close>

text \<open>
  Claim C1: the hash of a record is the same on every call and does not depend on the
  order in which the caller supplied the fields. Every call agrees with every other one,
  \<open>hashData\<close> being a function, and the handlers of \<^verbatim>\<open>test.js\<close> rebuild the object in a
  fixed order (\<open>canonical_order_independent\<close>). The handler of \<^verbatim>\<open>part_002\<close> hashes the
  body as it arrived: the same three fields, sent in two orders, are anchored under two
  different digests.
\<close>
theorem naive_hash_depends_on_field_order:
  "post_patients_naive ledger_up [(''name'', JStr ''Alice''), (''bloodType'', JStr ''O+''), (''age'', JNum 30)]
     = \<lparr>status = 201,
        body = JObj [(''transactionId'', JStr ''0.0.1001@1717236000.000000000''),
                     (''hash'', JStr ''d5892db8d3f858628df1daa811ccd9ff36afcf92604e562223a64396f6a03747'')]\<rparr>
   \<and> post_patients_naive ledger_up [(''age'', JNum 30), (''name'', JStr ''Alice''), (''bloodType'', JStr ''O+'')]
     = \<lparr>status = 201,
        body = JObj [(''transactionId'', JStr ''0.0.1001@1717236000.000000000''),
                     (''hash'', JStr ''6cd65cb2f7f29bcc38778ec5dae3da36ad74621f16bef94d800e5fd40a7b678b'')]\<rparr>"
proof -
  have \<open>serialize (JObj [(''name'', JStr ''Alice''), (''bloodType'', JStr ''O+''), (''age'', JNum 30)])
          = ''{"name":"Alice","bloodType":"O+","age":30}''\<close>
    by (simp add: json_eval)
  moreover have \<open>serialize (JObj [(''age'', JNum 30), (''name'', JStr ''Alice''), (''bloodType'', JStr ''O+'')])
          = ''{"age":30,"name":"Alice","bloodType":"O+"}''\<close>
    by (simp add: json_eval)
  ultimately show ?thesis
    by (simp only: post_patients_naive_def hashData_obj alice_digest alice_reordered_digest
          submitToHedera_def ledger_up_def sum.case simp_thms)
qed

text \<open>
  Claim C2: two deliveries with the same sequence number leave exactly one entry in the
  output of every replay, the one of the verification endpoints included. The replay of
  \<^verbatim>\<open>GET /logs\<close> does so (\<open>window_at_deadline\<close>: its window holds each delivered
  sequence number once). \<^verbatim>\<open>getHederaHashes\<close> never looks at the sequence number: a
  message delivered twice gives two entries.
\<close>
theorem verification_replay_keeps_duplicates:
  "getHederaHashes \<infinity>
     [OnMessage (topic_message_of 7 ''PATIENT|d5892db8d3f858628df1daa811ccd9ff36afcf92604e562223a64396f6a03747''),
      OnMessage (topic_message_of 7 ''PATIENT|d5892db8d3f858628df1daa811ccd9ff36afcf92604e562223a64396f6a03747''),
      TimerFired]
   = Some (Inr [\<lparr>type = ''PATIENT'', hash = ''d5892db8d3f858628df1daa811ccd9ff36afcf92604e562223a64396f6a03747''\<rparr>,
               \<lparr>type = ''PATIENT'', hash = ''d5892db8d3f858628df1daa811ccd9ff36afcf92604e562223a64396f6a03747''\<rparr>])"
  by (simp add: hh_eval)

text \<open>
  Claim C3, as stated: every result of bulk verification whose \<^verbatim>\<open>valid\<close> is false also
  reports, in a boolean field \<^verbatim>\<open>replayComplete\<close>, whether the replay hit its deadline.
  It fails: a stored patient and a replay that ends at its deadline with nothing
  collected give a result with \<^verbatim>\<open>valid\<close> false and no such field.
\<close>
theorem bulk_result_without_replayComplete_counterexample:
  "get_verify [TimerFired] (Inr [alice_doc]) (Inr [])
     = Some \<lparr>status = 200,
             body = JArr [JObj [(''record'', JStr ''patient''), (''id'', JStr ''665f1c2e9b1d8a0012345678''),
                                (''valid'', JBool False),
                                (''computedHash'', JStr ''d5892db8d3f858628df1daa811ccd9ff36afcf92604e562223a64396f6a03747'')]]\<rparr>
   \<and> field (JObj [(''record'', JStr ''patient''), (''id'', JStr ''665f1c2e9b1d8a0012345678''),
                   (''valid'', JBool False),
                   (''computedHash'', JStr ''d5892db8d3f858628df1daa811ccd9ff36afcf92604e562223a64396f6a03747'')])
        ''replayComplete'' = JUndefined"
proof -
  have "getHederaHashes \<infinity> [TimerFired] = Some (Inr [])" by (simp add: hh_eval)
  then have "get_verify [TimerFired] (Inr [alice_doc]) (Inr [])
     = Some \<lparr>status = 200,
             body = JArr [JObj [(''record'', JStr ''patient''), (''id'', JStr ''665f1c2e9b1d8a0012345678''),
                                (''valid'', JBool False),
                                (''computedHash'', JStr ''d5892db8d3f858628df1daa811ccd9ff36afcf92604e562223a64396f6a03747'')]]\<rparr>"
    by (simp add: get_verify_resolved alice_hash verdict_def) (simp add: alice_doc_def)
  then show ?thesis by (simp add: read_prop_def)
qed

text \<open>
  Claim C3, amended: every result that bulk verification returns has the fields
  \<^verbatim>\<open>record\<close>, \<^verbatim>\<open>id\<close>, \<^verbatim>\<open>valid\<close> and \<^verbatim>\<open>computedHash\<close> and no other; whatever its
  \<^verbatim>\<open>valid\<close>, it has no \<^verbatim>\<open>replayComplete\<close> field and does not report whether the replay
  hit its deadline.
\<close>
theorem bulk_results_carry_four_fields:
  assumes "get_verify evs found_patients found_organs = Some r" and "status r = 200"
  shows "\<exists>results. body r = JArr results \<and>
           (\<forall>x \<in> set results. keys x = [''record'', ''id'', ''valid'', ''computedHash'']
                               \<and> field x ''replayComplete'' = JUndefined)"
proof -
  from assms obtain hederaLogs where "getHederaHashes \<infinity> evs = Some (Inr hederaLogs)"
    by (auto simp: get_verify_def failure_def split: option.splits sum.splits)
  moreover from assms obtain ps where "found_patients = Inr ps"
    by (auto simp: get_verify_def failure_def split: option.splits sum.splits)
  moreover from assms obtain os where "found_organs = Inr os"
    by (auto simp: get_verify_def failure_def verify_patients_eq split: option.splits sum.splits)
  ultimately have "get_verify evs found_patients found_organs =
      Some \<lparr>status = 200,
             body = JArr (map (\<lambda>p. verdict (JStr ''patient'') p
                                      (\<exists>l \<in> set hederaLogs. hash l = patient_hash p) (patient_hash p)) ps
                          @ map (\<lambda>p. verdict (JStr ''organ'') p
                                      (\<exists>l \<in> set hederaLogs. hash l = organ_hash p) (organ_hash p)) os)\<rparr>"
    by (simp add: get_verify_resolved)
  with assms(1) have "body r = JArr (map (\<lambda>p. verdict (JStr ''patient'') p
                                      (\<exists>l \<in> set hederaLogs. hash l = patient_hash p) (patient_hash p)) ps
                          @ map (\<lambda>p. verdict (JStr ''organ'') p
                                      (\<exists>l \<in> set hederaLogs. hash l = organ_hash p) (organ_hash p)) os)"
    by auto
  then show ?thesis
    by (auto simp: verdict_keys verdict_no_replayComplete)
qed

text \<open>
  Claim C3, the amended statement at a concrete run: one stored patient, a replay that
  times out empty.
\<close>
theorem bulk_results_carry_four_fields_witness:
  "get_verify [TimerFired] (Inr [alice_doc]) (Inr [])
     = Some \<lparr>status = 200,
             body = JArr [verdict (JStr ''patient'') alice_doc False
                            ''d5892db8d3f858628df1daa811ccd9ff36afcf92604e562223a64396f6a03747'']\<rparr>
   \<and> keys (verdict (JStr ''patient'') alice_doc False
             ''d5892db8d3f858628df1daa811ccd9ff36afcf92604e562223a64396f6a03747'')
       = [''record'', ''id'', ''valid'', ''computedHash'']
   \<and> field (verdict (JStr ''patient'') alice_doc False
             ''d5892db8d3f858628df1daa811ccd9ff36afcf92604e562223a64396f6a03747'') ''replayComplete''
       = JUndefined"
proof -
  have "getHederaHashes \<infinity> [TimerFired] = Some (Inr [])" by (simp add: hh_eval)
  then have run: "get_verify [TimerFired] (Inr [alice_doc]) (Inr [])
     = Some \<lparr>status = 200,
             body = JArr [verdict (JStr ''patient'') alice_doc False
                            ''d5892db8d3f858628df1daa811ccd9ff36afcf92604e562223a64396f6a03747'']\<rparr>"
    by (simp add: get_verify_resolved alice_hash)
  from bulk_results_carry_four_fields [OF run] run show ?thesis by simp
qed

text \<open>
  Claim C4: a replay whose deadline elapses while its promise is still pending resolves
  with the entries collected so far, an empty list included, and raises no error. For
  \<^verbatim>\<open>getHederaHashes\<close> the promise resolves with the decoded entries delivered before the
  timer fired; for \<^verbatim>\<open>GET /logs\<close> the answer is the 200 response with the messages
  collected before the timer fired, sorted. Whatever callbacks follow change nothing.
\<close>
theorem deadline_returns_partial_window:
  "(getHederaHashes expectedCount pre = None \<longrightarrow>
      getHederaHashes expectedCount (pre @ TimerFired # post)
        = Some (Inr (List.map_filter decode (delivered pre)))) \<and>
   (replay_window pre' = None \<longrightarrow>
      get_logs (pre' @ LogsTimerFired # post')
        = Some \<lparr>status = 200,
                body = JObj [(''success'', JBool True),
                             (''count'', JNum (int (length (messages (logs_run pre'))))),
                             (''messages'', JArr (array_sort compare_seq (messages (logs_run pre'))))]\<rparr>)"
  using deadline_resolves get_logs_deadline by blast

text \<open>
  Claim C4 at concrete runs: one entry collected before the deadline of a verification
  replay, and a \<^verbatim>\<open>GET /logs\<close> replay that times out with an empty window.
\<close>
theorem deadline_returns_partial_window_witness:
  "getHederaHashes \<infinity> [OnMessage (topic_message_of 1 ''PATIENT|ab'')] = None \<and>
   getHederaHashes \<infinity> ([OnMessage (topic_message_of 1 ''PATIENT|ab'')] @ TimerFired # [])
     = Some (Inr [\<lparr>type = ''PATIENT'', hash = ''ab''\<rparr>]) \<and>
   replay_window [] = None \<and>
   get_logs ([] @ LogsTimerFired # [])
     = Some \<lparr>status = 200,
             body = JObj [(''success'', JBool True), (''count'', JNum 0), (''messages'', JArr [])]\<rparr>"
proof -
  have a: "getHederaHashes \<infinity> [OnMessage (topic_message_of 1 ''PATIENT|ab'')] = None"
    by (simp add: hh_eval)
  have b: "replay_window [] = None"
    by (simp add: replay_window_def logs_run_def logs_init_def)
  have c: "List.map_filter decode (delivered [OnMessage (topic_message_of 1 ''PATIENT|ab'')])
             = [\<lparr>type = ''PATIENT'', hash = ''ab''\<rparr>]"
    by (simp add: List.map_filter_def decode_def topic_message_of_def)
  have d: "messages (logs_run []) = []"
    by (simp add: logs_run_def logs_init_def)
  from deadline_returns_partial_window
         [of \<infinity> "[OnMessage (topic_message_of 1 ''PATIENT|ab'')]" "[]" "[]" "[]"] a b
  show ?thesis by (simp only: c d array_sort_def foldr.simps id_apply list.size of_nat_0 simp_thms)
qed

text \<open>
  Claim C5, as stated: an entry is skipped exactly when cutting its contents at the first
  \<^verbatim>\<open>|\<close> does not give two non-empty parts, and every well-formed entry of the replay
  is returned. It fails: \<^verbatim>\<open>PATIENT||ab\<close> cuts at the first \<^verbatim>\<open>|\<close> into \<^verbatim>\<open>PATIENT\<close> and
  \<^verbatim>\<open>|ab\<close>, but the source splits at every \<^verbatim>\<open>|\<close>, finds an empty second piece and
  skips the entry.
\<close>
theorem well_formed_entry_skipped_counterexample:
  "spec_well_formed ''PATIENT||ab'' \<and>
   getHederaHashes \<infinity> [OnMessage (topic_message_of 1 ''PATIENT||ab''), TimerFired] = Some (Inr [])"
  by (simp add: hh_eval spec_well_formed_def split_first_def)

text \<open>
  Claim C5, amended: an entry is decoded when the first two pieces of its contents, split
  at every \<^verbatim>\<open>|\<close>, exist and are non-empty, and it is skipped otherwise; every entry
  that does not cut at the first \<^verbatim>\<open>|\<close> into two non-empty parts is among the skipped
  ones. A skipped entry adds one console warning and changes nothing else, so it is never
  in the result and does not end the replay; the replay returns all the decoded entries,
  in arrival order.
\<close>
theorem malformed_entries_are_skipped:
  "(\<not> spec_well_formed (contents msg) \<longrightarrow> decode (contents msg) = None) \<and>
   (decode (contents msg) = None \<longrightarrow>
      hh_step expectedCount s (OnMessage msg)
        = s\<lparr>calls := calls s @ [ConsoleWarn (''Malformed message: '' @ contents msg)]\<rparr>) \<and>
   getHederaHashes \<infinity> (map OnMessage msgs @ TimerFired # post)
     = Some (Inr (List.map_filter decode (map contents msgs))) \<and>
   (decode content = Some e \<longleftrightarrow>
      (\<exists>t h rest. split CHR ''|'' content = t # h # rest \<and> t \<noteq> [] \<and> h \<noteq> []
                   \<and> e = \<lparr>type = t, hash = h\<rparr>))"
proof -
  have "decode content = Some e \<longleftrightarrow>
      (\<exists>t h rest. split CHR ''|'' content = t # h # rest \<and> t \<noteq> [] \<and> h \<noteq> []
                   \<and> e = \<lparr>type = t, hash = h\<rparr>)"
    by (auto simp: decode_def split: list.splits)
  then show ?thesis
    using malformed_skipped skip_step full_replay_deadline by blast
qed

text \<open>
  Claim C5, the amended statement at a concrete replay: a message without separator
  between two anchors.
\<close>
theorem malformed_entries_are_skipped_witness:
  "\<not> spec_well_formed (contents (topic_message_of 2 ''garbage'')) \<and>
   decode (contents (topic_message_of 2 ''garbage'')) = None \<and>
   hh_step \<infinity> hh_init (OnMessage (topic_message_of 2 ''garbage''))
     = hh_init\<lparr>calls := calls hh_init @ [ConsoleWarn ''Malformed message: garbage'']\<rparr> \<and>
   getHederaHashes \<infinity>
     (map OnMessage [topic_message_of 1 ''PATIENT|ab'', topic_message_of 2 ''garbage'',
                     topic_message_of 3 ''ORGAN|cd''] @ TimerFired # [])
     = Some (Inr [\<lparr>type = ''PATIENT'', hash = ''ab''\<rparr>, \<lparr>type = ''ORGAN'', hash = ''cd''\<rparr>]) \<and>
   decode ''PATIENT|ab'' = Some \<lparr>type = ''PATIENT'', hash = ''ab''\<rparr>"
proof -
  have a: "\<not> spec_well_formed (contents (topic_message_of 2 ''garbage''))"
    by (simp add: spec_well_formed_def split_first_def topic_message_of_def)
  have b: "List.map_filter decode (map contents [topic_message_of 1 ''PATIENT|ab'',
              topic_message_of 2 ''garbage'', topic_message_of 3 ''ORGAN|cd''])
            = [\<lparr>type = ''PATIENT'', hash = ''ab''\<rparr>, \<lparr>type = ''ORGAN'', hash = ''cd''\<rparr>]"
    by (simp add: List.map_filter_def decode_def topic_message_of_def)
  have c: "contents (topic_message_of 2 ''garbage'') = ''garbage''"
    by (simp add: topic_message_of_def)
  have d: "split CHR ''|'' ''PATIENT|ab'' = [''PATIENT'', ''ab'']" by simp
  have e: "decode (contents (topic_message_of 2 ''garbage'')) = None"
    by (simp add: decode_def topic_message_of_def)
  have f: "decode ''PATIENT|ab'' = Some \<lparr>type = ''PATIENT'', hash = ''ab''\<rparr>"
    by (simp add: decode_def)
  from malformed_entries_are_skipped
         [of "topic_message_of 2 ''garbage''" \<infinity> hh_init
             "[topic_message_of 1 ''PATIENT|ab'', topic_message_of 2 ''garbage'', topic_message_of 3 ''ORGAN|cd'']"
             "[]" "''PATIENT|ab''" "\<lparr>type = ''PATIENT'', hash = ''ab''\<rparr>"] a
  show ?thesis by (simp only: b c e f append.simps simp_thms)
qed



text \<open>
  Claim C7, as stated: point verification stops replaying as soon as an entry with the
  hash of the record appears. It fails: after the delivery of the anchor of the stored
  patient the request has still no answer.
\<close>
theorem point_verification_pending_after_match_counterexample:
  "decode ''PATIENT|d5892db8d3f858628df1daa811ccd9ff36afcf92604e562223a64396f6a03747''
     = Some \<lparr>type = ''PATIENT'', hash = patient_hash alice_doc\<rparr> \<and>
   post_verify find_alice find_none
     [OnMessage (topic_message_of 2 ''PATIENT|d5892db8d3f858628df1daa811ccd9ff36afcf92604e562223a64396f6a03747'')]
     [(''type'', JStr ''patient''), (''id'', JStr ''665f1c2e9b1d8a0012345678'')] = None"
proof -
  have "post_verify find_alice find_none
     [OnMessage (topic_message_of 2 ''PATIENT|d5892db8d3f858628df1daa811ccd9ff36afcf92604e562223a64396f6a03747'')]
     [(''type'', JStr ''patient''), (''id'', JStr ''665f1c2e9b1d8a0012345678'')]
     = point_check [OnMessage (topic_message_of 2 ''PATIENT|d5892db8d3f858628df1daa811ccd9ff36afcf92604e562223a64396f6a03747'')]
         (JStr ''patient'') alice_doc (patient_hash alice_doc)"
    using alice_request by (rule post_verify_patient)
  also have "\<dots> = None"
    using full_replay_pending [of "[topic_message_of 2 ''PATIENT|d5892db8d3f858628df1daa811ccd9ff36afcf92604e562223a64396f6a03747'']"]
    by (simp add: point_check_def)
  finally show ?thesis by (simp add: alice_hash decode_def)
qed

text \<open>
  Claim C7, amended: point verification with a known type and id recomputes the hash of
  the record and runs the same replay as bulk verification, with no stop condition. While
  only messages arrive there is no answer, whether one of them matches or not; when the
  deadline fires the answer is 200, and \<^verbatim>\<open>valid\<close> tells whether one of the entries decoded
  until then carries the computed hash.
\<close>
theorem point_verification_waits_for_deadline:
  "(read_prop req_body ''type'' = JStr ''patient'' \<and>
    patient_findById (read_prop req_body ''id'') = Inr (Some record) \<longrightarrow>
      post_verify patient_findById organ_findById (map OnMessage msgs) req_body = None \<and>
      post_verify patient_findById organ_findById (map OnMessage msgs @ TimerFired # post) req_body
        = Some \<lparr>status = 200,
                body = verdict (JStr ''patient'') record
                         (\<exists>l \<in> set (List.map_filter decode (map contents msgs)). hash l = patient_hash record)
                         (patient_hash record)\<rparr>) \<and>
   (read_prop req_body' ''type'' = JStr ''organ'' \<and>
    organ_findById (read_prop req_body' ''id'') = Inr (Some record') \<longrightarrow>
      post_verify patient_findById organ_findById (map OnMessage msgs) req_body' = None \<and>
      post_verify patient_findById organ_findById (map OnMessage msgs @ TimerFired # post) req_body'
        = Some \<lparr>status = 200,
                body = verdict (JStr ''organ'') record'
                         (\<exists>l \<in> set (List.map_filter decode (map contents msgs)). hash l = organ_hash record')
                         (organ_hash record')\<rparr>)"
  by (simp add: post_verify_patient post_verify_organ point_check_resolved [OF full_replay_deadline])
     (simp add: point_check_def full_replay_pending)

text \<open>
  Claim C7, the amended statement at concrete requests for a patient and for an organ.
\<close>
theorem point_verification_waits_for_deadline_witness:
  "read_prop [(''type'', JStr ''patient''), (''id'', JStr ''665f1c2e9b1d8a0012345678'')] ''type'' = JStr ''patient'' \<and>
   find_alice (read_prop [(''type'', JStr ''patient''), (''id'', JStr ''665f1c2e9b1d8a0012345678'')] ''id'')
     = Inr (Some alice_doc) \<and>
   post_verify find_alice find_kidney
     (map OnMessage
        [topic_message_of 2 ''ORGAN|d5892db8d3f858628df1daa811ccd9ff36afcf92604e562223a64396f6a03747'',
         topic_message_of 3 ''PATIENT|d5d34a2950e6447227f4e4ba799b06418bf632c908d84e0deb6cbe623460ff8b''])
     [(''type'', JStr ''patient''), (''id'', JStr ''665f1c2e9b1d8a0012345678'')] = None \<and>
   post_verify find_alice find_kidney
     (map OnMessage
        [topic_message_of 2 ''ORGAN|d5892db8d3f858628df1daa811ccd9ff36afcf92604e562223a64396f6a03747'',
         topic_message_of 3 ''PATIENT|d5d34a2950e6447227f4e4ba799b06418bf632c908d84e0deb6cbe623460ff8b'']
      @ TimerFired # [])
     [(''type'', JStr ''patient''), (''id'', JStr ''665f1c2e9b1d8a0012345678'')]
     = Some \<lparr>status = 200,
             body = verdict (JStr ''patient'') alice_doc True
                      ''d5892db8d3f858628df1daa811ccd9ff36afcf92604e562223a64396f6a03747''\<rparr> \<and>
   read_prop [(''type'', JStr ''organ''), (''id'', JStr ''665f1c2e9b1d8a00123456aa'')] ''type'' = JStr ''organ'' \<and>
   find_kidney (read_prop [(''type'', JStr ''organ''), (''id'', JStr ''665f1c2e9b1d8a00123456aa'')] ''id'')
     = Inr (Some kidney_doc) \<and>
   post_verify find_alice find_kidney
     (map OnMessage
        [topic_message_of 2 ''ORGAN|d5892db8d3f858628df1daa811ccd9ff36afcf92604e562223a64396f6a03747'',
         topic_message_of 3 ''PATIENT|d5d34a2950e6447227f4e4ba799b06418bf632c908d84e0deb6cbe623460ff8b''])
     [(''type'', JStr ''organ''), (''id'', JStr ''665f1c2e9b1d8a00123456aa'')] = None \<and>
   post_verify find_alice find_kidney
     (map OnMessage
        [topic_message_of 2 ''ORGAN|d5892db8d3f858628df1daa811ccd9ff36afcf92604e562223a64396f6a03747'',
         topic_message_of 3 ''PATIENT|d5d34a2950e6447227f4e4ba799b06418bf632c908d84e0deb6cbe623460ff8b'']
      @ TimerFired # [])
     [(''type'', JStr ''organ''), (''id'', JStr ''665f1c2e9b1d8a00123456aa'')]
     = Some \<lparr>status = 200,
             body = verdict (JStr ''organ'') kidney_doc True
                      ''d5d34a2950e6447227f4e4ba799b06418bf632c908d84e0deb6cbe623460ff8b''\<rparr>"
  using point_verification_waits_for_deadline
          [of "[(''type'', JStr ''patient''), (''id'', JStr ''665f1c2e9b1d8a0012345678'')]"
              find_alice alice_doc find_kidney
              "[topic_message_of 2 ''ORGAN|d5892db8d3f858628df1daa811ccd9ff36afcf92604e562223a64396f6a03747'',
                topic_message_of 3 ''PATIENT|d5d34a2950e6447227f4e4ba799b06418bf632c908d84e0deb6cbe623460ff8b'']"
              "[]"
              "[(''type'', JStr ''organ''), (''id'', JStr ''665f1c2e9b1d8a00123456aa'')]" kidney_doc]
  by (simp only: alice_request kidney_request swapped_tags_decoded swapped_tags_valid alice_hash
        kidney_hash simp_thms)

text \<open>
  Claim C8: the subscription of every replay is released exactly once on every exit path.
  \<^verbatim>\<open>GET /logs\<close> keeps the handle and calls \<^verbatim>\<open>unsubscribe\<close> in its \<^verbatim>\<open>cleanup\<close>
  (\<open>logs_released_when_settled\<close>). \<^verbatim>\<open>getHederaHashes\<close> drops the handle that
  \<^verbatim>\<open>query.subscribe\<close> returns: whatever the callbacks and however the promise settles,
  the subscription is opened and \<^verbatim>\<open>unsubscribe\<close> is never called.
\<close>
theorem verification_replay_never_unsubscribes:
  "Subscribe \<in> set (calls (hh_run expectedCount evs)) \<and> Unsubscribe \<notin> set (calls (hh_run expectedCount evs))"
proof -
  have "Subscribe \<in> set (calls (hh_run expectedCount evs))"
  proof (induction evs rule: rev_induct)
    case Nil
    show ?case by (simp add: hh_run_Nil hh_init_def)
  next
    case (snoc e evs)
    then show ?case
      by (cases e) (auto simp: hh_run_snoc hh_timeout_def hh_error_def hh_message_def split: option.splits)
  qed
  then show ?thesis by (simp add: no_unsubscribe)
qed

text \<open>
  Claim C9: \<^verbatim>\<open>POST /patients\<close> and \<^verbatim>\<open>POST /organs\<close> submit the anchor before they
  create the record. When the submission throws, the answer is the 500 error and the store
  is unchanged; a store that changed means that the submission of the anchor succeeded.
\<close>
theorem anchor_failure_leaves_store:
  "(execute (''PATIENT|'' @ sha256_hex (serialize (patient_fields patient))) = Inl err \<longrightarrow>
      post_patients execute create store patient
        = (failure 500 ''Failed to log patient to Hedera'', store)) \<and>
   (execute (''ORGAN|'' @ sha256_hex (serialize (organ_fields organ))) = Inl err' \<longrightarrow>
      post_organs execute create' store organ
        = (failure 500 ''Failed to log organ to Hedera'', store)) \<and>
   (snd (post_patients execute create store patient) \<noteq> store \<longrightarrow>
      (\<exists>txId. execute (''PATIENT|'' @ sha256_hex (serialize (patient_fields patient))) = Inr txId)) \<and>
   (snd (post_organs execute create' store organ) \<noteq> store \<longrightarrow>
      (\<exists>txId. execute (''ORGAN|'' @ sha256_hex (serialize (organ_fields organ))) = Inr txId))"
  using post_patients_anchor_failed post_organs_anchor_failed post_patients_stored post_organs_stored
  by blast

text \<open>
  Claim C9 at concrete requests, against a ledger that refuses and one that accepts.
\<close>
theorem anchor_failure_leaves_store_witness:
  "ledger_down (''PATIENT|'' @ sha256_hex (serialize (patient_fields alice))) = Inl (Error ''UNAVAILABLE'') \<and>
   post_patients ledger_down (save_as ''p1'') empty_db alice
     = (failure 500 ''Failed to log patient to Hedera'', empty_db) \<and>
   ledger_down (''ORGAN|'' @ sha256_hex (serialize (organ_fields kidney))) = Inl (Error ''UNAVAILABLE'') \<and>
   post_organs ledger_down (save_as ''o1'') empty_db kidney
     = (failure 500 ''Failed to log organ to Hedera'', empty_db) \<and>
   snd (post_patients ledger_up (save_as ''p1'') empty_db alice) \<noteq> empty_db \<and>
   ledger_up (''PATIENT|'' @ sha256_hex (serialize (patient_fields alice))) = Inr ''0.0.1001@1717236000.000000000'' \<and>
   snd (post_organs ledger_up (save_as ''o1'') empty_db kidney) \<noteq> empty_db \<and>
   ledger_up (''ORGAN|'' @ sha256_hex (serialize (organ_fields kidney))) = Inr ''0.0.1001@1717236000.000000000''"
proof -
  have down: "ledger_down m = Inl (Error ''UNAVAILABLE'')" for m by (simp add: ledger_down_def)
  have up: "ledger_up m = Inr ''0.0.1001@1717236000.000000000''" for m by (simp add: ledger_up_def)
  have p: "snd (post_patients ledger_up (save_as ''p1'') empty_db alice) \<noteq> empty_db"
    by (simp add: post_patients_def patient_fields_def hashData_obj submitToHedera_def up save_as_def
          empty_db_def)
  have o: "snd (post_organs ledger_up (save_as ''o1'') empty_db kidney) \<noteq> empty_db"
    by (simp add: post_organs_def organ_fields_def hashData_obj submitToHedera_def up save_as_def
          empty_db_def)
  from anchor_failure_leaves_store [of ledger_down alice "Error ''UNAVAILABLE''" "save_as ''p1''" empty_db
         kidney "Error ''UNAVAILABLE''" "save_as ''o1''"]
       anchor_failure_leaves_store [of ledger_up alice "Error ''UNAVAILABLE''" "save_as ''p1''" empty_db
         kidney "Error ''UNAVAILABLE''" "save_as ''o1''"]
  show ?thesis using down up p o by simp
qed

text \<open>
  Claim C10: in both verification modes \<^verbatim>\<open>valid\<close> is true exactly when some replayed
  entry carries the recomputed hash of the record; the type tag of the entry plays no
  part.
\<close>
theorem validity_is_hash_membership:
  assumes "getHederaHashes \<infinity> evs = Some (Inr hederaLogs)"
  shows "get_verify evs (Inr ps) (Inr os)
           = Some \<lparr>status = 200,
                   body = JArr (map (\<lambda>p. verdict (JStr ''patient'') p
                                           (\<exists>l \<in> set hederaLogs. hash l = patient_hash p) (patient_hash p)) ps
                                @ map (\<lambda>p. verdict (JStr ''organ'') p
                                           (\<exists>l \<in> set hederaLogs. hash l = organ_hash p) (organ_hash p)) os)\<rparr>
         \<and> (read_prop req_body ''type'' = JStr ''patient'' \<and>
            patient_findById (read_prop req_body ''id'') = Inr (Some record) \<longrightarrow>
              post_verify patient_findById organ_findById evs req_body
                = Some \<lparr>status = 200,
                        body = verdict (JStr ''patient'') record
                                 (\<exists>l \<in> set hederaLogs. hash l = patient_hash record) (patient_hash record)\<rparr>)
         \<and> (read_prop req_body' ''type'' = JStr ''organ'' \<and>
            organ_findById (read_prop req_body' ''id'') = Inr (Some record') \<longrightarrow>
              post_verify patient_findById organ_findById evs req_body'
                = Some \<lparr>status = 200,
                        body = verdict (JStr ''organ'') record'
                                 (\<exists>l \<in> set hederaLogs. hash l = organ_hash record') (organ_hash record')\<rparr>)"
  using assms
  by (simp add: get_verify_resolved post_verify_patient post_verify_organ point_check_resolved)

text \<open>
  Claim C10 at a concrete replay in which the anchor of the patient is tagged
  \<^verbatim>\<open>ORGAN\<close> and the one of the organ \<^verbatim>\<open>PATIENT\<close>: both records are valid.
\<close>
theorem validity_is_hash_membership_witness:
  "getHederaHashes \<infinity>
     (map OnMessage
        [topic_message_of 2 ''ORGAN|d5892db8d3f858628df1daa811ccd9ff36afcf92604e562223a64396f6a03747'',
         topic_message_of 3 ''PATIENT|d5d34a2950e6447227f4e4ba799b06418bf632c908d84e0deb6cbe623460ff8b'']
      @ TimerFired # [])
   = Some (Inr [\<lparr>type = ''ORGAN'', hash = ''d5892db8d3f858628df1daa811ccd9ff36afcf92604e562223a64396f6a03747''\<rparr>,
               \<lparr>type = ''PATIENT'', hash = ''d5d34a2950e6447227f4e4ba799b06418bf632c908d84e0deb6cbe623460ff8b''\<rparr>]) \<and>
   get_verify
     (map OnMessage
        [topic_message_of 2 ''ORGAN|d5892db8d3f858628df1daa811ccd9ff36afcf92604e562223a64396f6a03747'',
         topic_message_of 3 ''PATIENT|d5d34a2950e6447227f4e4ba799b06418bf632c908d84e0deb6cbe623460ff8b'']
      @ TimerFired # [])
     (Inr [alice_doc]) (Inr [kidney_doc])
   = Some \<lparr>status = 200,
           body = JArr [verdict (JStr ''patient'') alice_doc True
                          ''d5892db8d3f858628df1daa811ccd9ff36afcf92604e562223a64396f6a03747'',
                        verdict (JStr ''organ'') kidney_doc True
                          ''d5d34a2950e6447227f4e4ba799b06418bf632c908d84e0deb6cbe623460ff8b'']\<rparr> \<and>
   post_verify find_alice find_kidney
     (map OnMessage
        [topic_message_of 2 ''ORGAN|d5892db8d3f858628df1daa811ccd9ff36afcf92604e562223a64396f6a03747'',
         topic_message_of 3 ''PATIENT|d5d34a2950e6447227f4e4ba799b06418bf632c908d84e0deb6cbe623460ff8b'']
      @ TimerFired # [])
     [(''type'', JStr ''patient''), (''id'', JStr ''665f1c2e9b1d8a0012345678'')]
   = Some \<lparr>status = 200,
           body = verdict (JStr ''patient'') alice_doc True
                    ''d5892db8d3f858628df1daa811ccd9ff36afcf92604e562223a64396f6a03747''\<rparr> \<and>
   post_verify find_alice find_kidney
     (map OnMessage
        [topic_message_of 2 ''ORGAN|d5892db8d3f858628df1daa811ccd9ff36afcf92604e562223a64396f6a03747'',
         topic_message_of 3 ''PATIENT|d5d34a2950e6447227f4e4ba799b06418bf632c908d84e0deb6cbe623460ff8b'']
      @ TimerFired # [])
     [(''type'', JStr ''organ''), (''id'', JStr ''665f1c2e9b1d8a00123456aa'')]
   = Some \<lparr>status = 200,
           body = verdict (JStr ''organ'') kidney_doc True
                    ''d5d34a2950e6447227f4e4ba799b06418bf632c908d84e0deb6cbe623460ff8b''\<rparr>"
  using validity_is_hash_membership [OF swapped_tags_replay,
          of "[alice_doc]" "[kidney_doc]"
             "[(''type'', JStr ''patient''), (''id'', JStr ''665f1c2e9b1d8a0012345678'')]"
             find_alice alice_doc find_kidney
             "[(''type'', JStr ''organ''), (''id'', JStr ''665f1c2e9b1d8a00123456aa'')]" kidney_doc]
        swapped_tags_replay
  by (simp only: alice_request kidney_request swapped_tags_valid alice_hash kidney_hash
        list.map append.simps simp_thms)

end
